theory Spec2Isabelle
  imports Main "HOL-Library.Word" "HOL-Library.Sublist"
begin

section \<open>Shared types (pkg/types, pkg/errors)\<close>

text \<open>
  Go strings are byte sequences; \<open>string\<close> is a list of 8-bit characters, so the model
  counts and compares what the Go code counts and compares.
\<close>

abbreviation NL :: char where
  "NL \<equiv> CHR 0x0A"

abbreviation CR :: char where
  "CR \<equiv> CHR 0x0D"

record ParsedBlock =
  Severity :: string
  CheckName :: string
  DetailRaw :: string

datatype ErrorType =
  ErrorTypeConfig | ErrorTypeNetwork | ErrorTypeAuth | ErrorTypeParse
  | ErrorTypeFile | ErrorTypeValidation | ErrorTypeTimeout | ErrorTypeUnknown

text \<open>
  \<open>NCCError\<close> carries a type, a message and an optional wrapped error; \<open>HTTPError\<close> embeds
  a network-typed \<open>NCCError\<close> and adds the status code and the URL. \<open>ForeignError\<close> stands
  for the errors of the runtime and of collaborators (context, transport, file system,
  \<open>fmt.Errorf\<close>), of which only the text is kept.
\<close>

datatype error =
  NCCError ErrorType string "error option"
  | HTTPError int string string
  | ForeignError string

definition New :: "ErrorType \<Rightarrow> string \<Rightarrow> error" where
  "New errType message = NCCError errType message None"

definition Wrap :: "error \<Rightarrow> ErrorType \<Rightarrow> string \<Rightarrow> error" where
  "Wrap err errType message = NCCError errType message (Some err)"

definition NewHTTPError :: "int \<Rightarrow> string \<Rightarrow> string \<Rightarrow> error" where
  "NewHTTPError statusCode url message = HTTPError statusCode url message"

definition ParseError :: "string \<Rightarrow> error" where
  "ParseError message = New ErrorTypeParse message"

definition IsRetryableStatus :: "int \<Rightarrow> bool" where
  "IsRetryableStatus code =
     (code = 408 \<or> code = 429 \<or> code = 500 \<or> code = 502 \<or> code = 503 \<or> code = 504)"

section \<open>The summary parser (pkg/parser/parser.go)\<close>

subsection \<open>Regular expressions and string helpers\<close>

text \<open>
  \<open>^Detailed information for .*\<close> and \<open>^Refer to.*\<close> are compiled without the multi-line
  flag and used through \<open>MatchString\<close>: \<open>^\<close> is the start of the text and \<open>.*\<close> may match
  nothing, so each is a prefix test.
\<close>

definition reBlockStart :: "string \<Rightarrow> bool" where
  "reBlockStart l = prefix ''Detailed information for '' l"

definition reBlockEnd :: "string \<Rightarrow> bool" where
  "reBlockEnd l = prefix ''Refer to'' l"

text \<open>The ASCII word characters of \<open>\b\<close>: digits, letters and the underscore.\<close>

definition isWordChar :: "char \<Rightarrow> bool" where
  "isWordChar c =
     (let n = (of_char c :: nat)
      in (48 \<le> n \<and> n \<le> 57) \<or> (65 \<le> n \<and> n \<le> 90) \<or> (97 \<le> n \<and> n \<le> 122) \<or> n = 95)"

text \<open>
  The leftmost match of \<open>\b(FAIL|WARN|INFO|ERR):\<close>. Every alternative starts with a
  letter, so \<open>\b\<close> holds exactly where the byte before is not a word character (or there
  is none); the flag carries that fact along the scan.
\<close>

fun findSeverity :: "bool \<Rightarrow> string \<Rightarrow> string option" where
  "findSeverity b [] = None"
| "findSeverity b (c # cs) =
     (if b \<and> prefix ''FAIL:'' (c # cs) then Some ''FAIL''
      else if b \<and> prefix ''WARN:'' (c # cs) then Some ''WARN''
      else if b \<and> prefix ''INFO:'' (c # cs) then Some ''INFO''
      else if b \<and> prefix ''ERR:'' (c # cs) then Some ''ERR''
      else findSeverity (\<not> isWordChar c) cs)"

fun strings_Contains :: "string \<Rightarrow> string \<Rightarrow> bool" where
  "strings_Contains [] substr = (substr = [])"
| "strings_Contains (c # cs) substr = (prefix substr (c # cs) \<or> strings_Contains cs substr)"

fun strings_Join :: "string list \<Rightarrow> string \<Rightarrow> string" where
  "strings_Join [] sep = []"
| "strings_Join [x] sep = x"
| "strings_Join (x # y # ys) sep = x @ sep @ strings_Join (y # ys) sep"

text \<open>
  \<open>strings.Split(s, sep)\<close> for a one-byte separator: the pieces between separators,
  always at least one.
\<close>

fun strings_SplitByte :: "char \<Rightarrow> string \<Rightarrow> string list" where
  "strings_SplitByte sep [] = [[]]"
| "strings_SplitByte sep (c # cs) =
     (if c = sep then [] # strings_SplitByte sep cs
      else (case strings_SplitByte sep cs of
              [] \<Rightarrow> [[c]]
            | l # ls \<Rightarrow> (c # l) # ls))"

abbreviation strings_SplitNL :: "string \<Rightarrow> string list" where
  "strings_SplitNL \<equiv> strings_SplitByte NL"

definition detectSeverity :: "string \<Rightarrow> string" where
  "detectSeverity s =
     (case findSeverity True s of
        Some sev \<Rightarrow> sev
      | None \<Rightarrow>
          if strings_Contains s ''FAIL:'' then ''FAIL''
          else if strings_Contains s ''WARN:'' then ''WARN''
          else if strings_Contains s ''ERR:'' then ''ERR''
          else if strings_Contains s ''INFO:'' then ''INFO''
          else ''INFO'')"

subsection \<open>splitLines\<close>

text \<open>
  \<open>bufio.Scanner\<close> with the default \<open>ScanLines\<close>: a token is the bytes up to the next
  newline (or to the end of the input, when bytes remain), with one trailing carriage
  return dropped. The scanner's buffer is capped at 4 MiB; a line that does not fit
  (4 MiB or more before its newline) ends the scan with \<open>ErrTooLong\<close>, which
  \<open>splitLines\<close> does not look at: the lines read so far are kept.
\<close>

definition maxTokenSize :: nat where
  "maxTokenSize = 4 * 1024 * 1024"

definition dropCR :: "string \<Rightarrow> string" where
  "dropCR data = (if data \<noteq> [] \<and> last data = CR then butlast data else data)"

function scanLines :: "string \<Rightarrow> string list" where
  "scanLines s =
     (if s = [] then []
      else if maxTokenSize \<le> length (takeWhile (\<lambda>c. c \<noteq> NL) s) then []
      else dropCR (takeWhile (\<lambda>c. c \<noteq> NL) s) # scanLines (drop 1 (dropWhile (\<lambda>c. c \<noteq> NL) s)))"
  by pat_completeness auto
termination
proof (relation "measure length")
  show "wf (measure length)" by simp
next
  fix s :: string
  assume "s \<noteq> []"
  then have "length (drop 1 (dropWhile (\<lambda>c. c \<noteq> NL) s)) < length s"
    using length_dropWhile_le [of "\<lambda>c. c \<noteq> NL" s] by (cases s) auto
  then show "(drop 1 (dropWhile (\<lambda>c. c \<noteq> NL) s), s) \<in> measure length" by simp
qed

declare scanLines.simps [simp del]

definition splitLines :: "string \<Rightarrow> string list" where
  "splitLines s = scanLines s @ (if s \<noteq> [] \<and> last s = NL then [[]] else [])"

subsection \<open>ParseSummary\<close>

text \<open>
  The inner loop of \<open>ParseSummary\<close>: the lines up to and including the first one that
  matches \<open>reBlockEnd\<close> (all of them when none does), and the lines left for the outer
  loop.
\<close>

fun collectDetail :: "string list \<Rightarrow> string list \<times> string list" where
  "collectDetail [] = ([], [])"
| "collectDetail (l # ls) =
     (if reBlockEnd l then ([l], ls)
      else (case collectDetail ls of (buf, rest) \<Rightarrow> (l # buf, rest)))"

lemma collectDetail_rest_length: "length (snd (collectDetail ls)) \<le> length ls"
  by (induction ls) (auto split: prod.splits)

definition mkBlock :: "string \<Rightarrow> string list \<Rightarrow> ParsedBlock" where
  "mkBlock checkName buf =
     (let joined = strings_Join buf [NL]
      in \<lparr>Severity = detectSeverity joined, CheckName = checkName, DetailRaw = joined\<rparr>)"

function parseLines :: "string list \<Rightarrow> ParsedBlock list" where
  "parseLines [] = []"
| "parseLines (l # ls) =
     (if reBlockStart l
      then mkBlock l (fst (collectDetail ls)) # parseLines (snd (collectDetail ls))
      else parseLines ls)"
  by pat_completeness auto
termination
  by (relation "measure length") (auto simp: collectDetail_rest_length less_Suc_eq_le)

definition ParseSummary :: "string \<Rightarrow> error + ParsedBlock list" where
  "ParseSummary text =
     (if text = [] then Inl (ParseError ''empty summary text'')
      else (let blocks = parseLines (splitLines text)
            in if length blocks = 0 then Inl (ParseError ''no valid blocks found in summary'')
               else Inr blocks))"

text \<open>\<open>strings.ReplaceAll(s, "\\n", "\n")\<close>: each backslash followed by \<open>n\<close>, left to right.\<close>

fun SanitizeSummary :: "string \<Rightarrow> string" where
  "SanitizeSummary (a # b # cs) =
     (if a = CHR 0x5C \<and> b = CHR ''n'' then NL # SanitizeSummary cs
      else a # SanitizeSummary (b # cs))"
| "SanitizeSummary cs = cs"

subsection \<open>Reading a finding back\<close>

text \<open>The lines of a finding's raw detail, and "exactly one line matches
  \<open>^Refer to.*\<close>, and it is the last one".\<close>

definition detailLines :: "ParsedBlock \<Rightarrow> string list" where
  "detailLines b = strings_SplitNL (DetailRaw b)"

definition oneTerminalRefer :: "string list \<Rightarrow> bool" where
  "oneTerminalRefer ls = (length (filter reBlockEnd ls) = 1 \<and> ls \<noteq> [] \<and> reBlockEnd (last ls))"

section \<open>The filtered file (pkg/cmd/root.go)\<close>

subsection \<open>The file system seam\<close>

text \<open>
  \<open>types.FS\<close> is an injected capability. The model keeps the files written so far and
  lets every operation fail: \<open>mkdirFails\<close> and \<open>writeFails\<close> say for which paths
  \<open>MkdirAll\<close> and \<open>WriteFile\<close> return an error, and a path with no file makes \<open>ReadFile\<close>
  fail. Directories and permissions are not tracked.
\<close>

record FS =
  files :: "string \<rightharpoonup> string"
  mkdirFails :: "string \<Rightarrow> bool"
  writeFails :: "string \<Rightarrow> bool"

definition ReadFile :: "FS \<Rightarrow> string \<Rightarrow> error + string" where
  "ReadFile fs path =
     (case files fs path of
        None \<Rightarrow> Inl (ForeignError ''file does not exist'')
      | Some data \<Rightarrow> Inr data)"

definition MkdirAll :: "FS \<Rightarrow> string \<Rightarrow> error option" where
  "MkdirAll fs path = (if mkdirFails fs path then Some (ForeignError ''mkdir failed'') else None)"

definition WriteFile :: "FS \<Rightarrow> string \<Rightarrow> string \<Rightarrow> error + FS" where
  "WriteFile fs path data =
     (if writeFails fs path then Inl (ForeignError ''write failed'')
      else Inr (fs\<lparr>files := (files fs)(path \<mapsto> data)\<rparr>))"

subsection \<open>filterBlocksToFile and buildFilteredLog\<close>

definition dashes :: string where
  "dashes = ''---------------------------------------''"

definition separator :: string where
  "separator = [NL, NL] @ dashes @ [NL]"

text \<open>The loop over the blocks, with the \<open>strings.Builder\<close> as accumulator.\<close>

fun writeBlocks :: "string \<Rightarrow> ParsedBlock list \<Rightarrow> string" where
  "writeBlocks b [] = b"
| "writeBlocks b (pb # pbs) =
     writeBlocks (b @ CheckName pb @ [NL] @ DetailRaw pb @ separator) pbs"

text \<open>\<open>filepath.Dir\<close> is a parameter: only \<open>MkdirAll\<close> sees its result.\<close>

definition filterBlocksToFile :: "(string \<Rightarrow> string) \<Rightarrow> FS \<Rightarrow> string \<Rightarrow> string \<Rightarrow> error + FS" where
  "filterBlocksToFile filepath_Dir fs inputPath outputPath =
     (case ReadFile fs inputPath of
        Inl err \<Rightarrow> Inl err
      | Inr data \<Rightarrow>
          (case ParseSummary data of
             Inl err \<Rightarrow> Inl err
           | Inr blocks \<Rightarrow>
               (case MkdirAll fs (filepath_Dir outputPath) of
                  Some err \<Rightarrow> Inl err
                | None \<Rightarrow> WriteFile fs outputPath (writeBlocks [] blocks))))"

definition buildFilteredLog :: "(string \<Rightarrow> string) \<Rightarrow> FS \<Rightarrow> string \<Rightarrow> string \<Rightarrow> error + FS" where
  "buildFilteredLog filepath_Dir fs inputPath outputPath =
     (case ReadFile fs inputPath of
        Inl err \<Rightarrow> Inl err
      | Inr data \<Rightarrow>
          (case ParseSummary data of
             Inl err \<Rightarrow> Inl err
           | Inr blocks \<Rightarrow>
               (case MkdirAll fs (filepath_Dir outputPath) of
                  Some err \<Rightarrow> Inl err
                | None \<Rightarrow> WriteFile fs outputPath (writeBlocks [] blocks))))"

text \<open>What the loop appends for one finding, and the file a call leaves behind.\<close>

definition writtenBlock :: "ParsedBlock \<Rightarrow> string" where
  "writtenBlock pb = CheckName pb @ [NL] @ DetailRaw pb @ separator"

definition writtenFile :: "error + FS \<Rightarrow> string \<Rightarrow> string option" where
  "writtenFile r path = (case r of Inl err \<Rightarrow> None | Inr fs \<Rightarrow> files fs path)"

text \<open>
  The block format in the words of the specification, for comparison with the code:
  \<open>check-name\n\ndetail\n\n---------------------------------------\n\<close>.
\<close>

definition specBlock :: "ParsedBlock \<Rightarrow> string" where
  "specBlock pb = CheckName pb @ [NL, NL] @ DetailRaw pb @ separator"

subsection \<open>Reading the filtered file back\<close>

text \<open>
  Two strings are the same up to white space at their boundaries when they agree after
  leading and trailing ASCII white space is removed.
\<close>

definition isSpace :: "char \<Rightarrow> bool" where
  "isSpace c = (c = CHR '' '' \<or> c = CHR 0x09 \<or> c = NL \<or> c = CHR 0x0B \<or> c = CHR 0x0C \<or> c = CR)"

definition trimSpace :: "string \<Rightarrow> string" where
  "trimSpace s = rev (dropWhile isSpace (rev (dropWhile isSpace s)))"

text \<open>
  A finding that survives being written and parsed again: its check-name is one scanner
  line that starts a block, its detail is closed by its only \<open>Refer to\<close> line, no line
  is too long for the scanner or ends in a carriage return (which the scanner would
  drop), and its severity is the one its detail gives.
\<close>

definition reparsable :: "ParsedBlock \<Rightarrow> bool" where
  "reparsable b \<longleftrightarrow>
     reBlockStart (CheckName b) \<and> NL \<notin> set (CheckName b)
     \<and> (\<forall>x\<in>set (CheckName b # detailLines b). length x < maxTokenSize \<and> dropCR x = x)
     \<and> oneTerminalRefer (detailLines b)
     \<and> Severity b = detectSeverity (DetailRaw b)"

text \<open>The lines the scanner reads from one written block.\<close>

definition blockLines :: "ParsedBlock \<Rightarrow> string list" where
  "blockLines b = CheckName b # detailLines b @ [[], dashes]"

section \<open>The retrying HTTP caller (pkg/client)\<close>

text \<open>
  Durations are \<open>time.Duration\<close>, an \<open>int64\<close> count of nanoseconds. They are kept as
  \<open>int\<close>; where the code multiplies, the wrap-around of \<open>int64\<close> is written out with
  \<open>int64\<close> below. The configuration keeps the fields the modelled code reads.
\<close>

record Config =
  RetryMaxAttempts :: int
  RetryBaseDelay :: int
  RetryMaxDelay :: int
  PollInterval :: int
  PollJitter :: int
  OutputDirLogs :: string
  OutputDirFiltered :: string
  OutputFormats :: "string list"

definition Second :: int where
  "Second = 1000000000"

definition int64 :: "int \<Rightarrow> int" where
  "int64 x = sint (word_of_int x :: 64 word)"

text \<open>
  \<open>rand.Int63n(n)\<close> panics for \<open>n \<le> 0\<close> and otherwise returns some value in \<open>[0, n)\<close>; the
  random source is a parameter (\<open>draw\<close>), reduced into the range.
\<close>

definition rand_Int63n :: "int \<Rightarrow> int \<Rightarrow> int option" where
  "rand_Int63n draw n = (if n \<le> 0 then None else Some (draw mod n))"

text \<open>
  \<open>time.Duration(float64(base) * math.Pow(2, float64(attempt-1)))\<close>. Where the product is
  exact in \<open>float64\<close> and fits \<open>int64\<close> (an attempt number from 1 to 1024, a base of at
  most \<open>2^53\<close> in absolute value, a product below \<open>2^63\<close>) the result is the product.
  Elsewhere the value is rounded or, out of range, depends on the platform: it is the
  parameter \<open>floatConv\<close>, taken as an \<open>int64\<close>.
\<close>

definition expDelay :: "(int \<Rightarrow> int \<Rightarrow> int) \<Rightarrow> int \<Rightarrow> int \<Rightarrow> int" where
  "expDelay floatConv base attempt =
     (if 1 \<le> attempt \<and> attempt \<le> 1024 \<and> \<bar>base\<bar> \<le> 2 ^ 53
         \<and> \<bar>base\<bar> * 2 ^ nat (attempt - 1) < 2 ^ 63
      then base * 2 ^ nat (attempt - 1)
      else int64 (floatConv base attempt))"

definition jitteredBackoff :: "(int \<Rightarrow> int \<Rightarrow> int) \<Rightarrow> int \<Rightarrow> int \<Rightarrow> int \<Rightarrow> int \<Rightarrow> int option" where
  "jitteredBackoff floatConv draw base maxDelay attempt =
     (let capDelay = expDelay floatConv base attempt;
          capDelay = (if capDelay > maxDelay then maxDelay else capDelay)
      in if capDelay \<le> 0 then Some 0 else rand_Int63n draw capDelay)"

text \<open>
  \<open>strconv.Atoi\<close>: an optional sign and at least one decimal digit, nothing else, with a
  value in the range of \<open>int64\<close>; \<open>None\<close> stands for its error.
\<close>

definition isDigit :: "char \<Rightarrow> bool" where
  "isDigit c = (48 \<le> (of_char c :: nat) \<and> (of_char c :: nat) \<le> 57)"

fun digitsValue :: "int \<Rightarrow> string \<Rightarrow> int" where
  "digitsValue n [] = n"
| "digitsValue n (c # cs) = digitsValue (n * 10 + (of_char c - 48)) cs"

definition strconv_Atoi :: "string \<Rightarrow> int option" where
  "strconv_Atoi s =
     (let neg = (s \<noteq> [] \<and> hd s = CHR ''-'');
          ds = (if s \<noteq> [] \<and> (hd s = CHR ''-'' \<or> hd s = CHR ''+'') then tl s else s)
      in if ds = [] \<or> \<not> list_all isDigit ds then None
         else (let n = (if neg then - digitsValue 0 ds else digitsValue 0 ds)
               in if n < - (2 ^ 63) \<or> 2 ^ 63 \<le> n then None else Some n))"

text \<open>
  Of a response the caller reads the status code and the \<open>Retry-After\<close> header
  (\<open>Header.Get\<close> gives the empty string when it is absent). \<open>http.ParseTime\<close> followed by
  \<open>time.Until\<close> depends on the clock and is the parameter \<open>untilDate\<close>: the time left until
  the date when the header is an HTTP date.
\<close>

record Response =
  StatusCode :: int
  RetryAfter :: string

definition retryAfterDelay :: "(string \<Rightarrow> int option) \<Rightarrow> Response option \<Rightarrow> int \<times> bool" where
  "retryAfterDelay untilDate resp =
     (case resp of
        None \<Rightarrow> (0, False)
      | Some r \<Rightarrow>
          (let ra = RetryAfter r
           in if ra = [] then (0, False)
              else (case strconv_Atoi ra of
                      Some secs \<Rightarrow> (int64 (secs * Second), True)
                    | None \<Rightarrow>
                        (case untilDate ra of
                           Some d \<Rightarrow> ((if d < 0 then 0 else d), True)
                         | None \<Rightarrow> (0, False)))))"

text \<open>The verb \<open>%d\<close> of \<open>fmt.Sprintf\<close>.\<close>

fun fmt_nat :: "nat \<Rightarrow> string" where
  "fmt_nat n =
     (if n < 10 then [''0123456789'' ! n]
      else fmt_nat (n div 10) @ [''0123456789'' ! (n mod 10)])"

declare fmt_nat.simps [simp del]

definition fmt_d :: "int \<Rightarrow> string" where
  "fmt_d i = (if i < 0 then CHR ''-'' # fmt_nat (nat (- i)) else fmt_nat (nat i))"


subsection \<open>DoWithRetry\<close>

text \<open>
  What one attempt meets, by attempt number: the result of \<open>client.Do\<close>, whether the outer
  context is done when a transport error is examined, the bytes and error of reading the
  body, the random draw of the backoff, and whether the outer context ends the wait
  before the next attempt. A request is its URL and its body, which may be absent or
  fail to be read. The trace of a call lists the attempts issued, each with the body it
  sent, and the durations handed to \<open>time.After\<close>, each with the attempt it follows.
\<close>

record AttemptIO =
  doResult :: "error + Response"
  ctxErrAfterDo :: "error option"
  readBody :: "string \<times> error option"
  randDraw :: int
  ctxDoneInWait :: "error option"
  untilDate :: "string \<Rightarrow> int option"

record Request =
  URL :: string
  Body :: "(error + string) option"

datatype event = Attempt int "string option" | Wait int int

type_synonym result = "Response option \<times> string option \<times> error option"

datatype outcome = Returned result | Panicked

text \<open>
  One turn of the loop: it returns from \<open>DoWithRetry\<close>, waits and continues with the next
  attempt (updating \<open>resp\<close>, \<open>body\<close> and \<open>lastErr\<close>), or panics, should \<open>jitteredBackoff\<close> do so.
\<close>

datatype stepResult = Return result | Continue int result | Panic

definition attemptStep ::
  "(int \<Rightarrow> int \<Rightarrow> int) \<Rightarrow> Config \<Rightarrow> string \<Rightarrow> string \<Rightarrow> int \<Rightarrow> int \<Rightarrow> AttemptIO \<Rightarrow> result
    \<Rightarrow> stepResult" where
  "attemptStep floatConv cfg url op attempts attempt io vars =
     (case doResult io of
        Inl lastErr \<Rightarrow>
          (case ctxErrAfterDo io of
             Some ctxErr \<Rightarrow>
               Return (None, None, Some (Wrap ctxErr ErrorTypeTimeout ''context cancelled''))
           | None \<Rightarrow>
               if attempt < attempts then
                 (case jitteredBackoff floatConv (randDraw io) (RetryBaseDelay cfg)
                         (RetryMaxDelay cfg) attempt of
                    None \<Rightarrow> Panic
                  | Some back \<Rightarrow>
                      (case ctxDoneInWait io of
                         Some ctxErr \<Rightarrow>
                           Return (None, None,
                             Some (Wrap ctxErr ErrorTypeTimeout ''context cancelled during retry''))
                       | None \<Rightarrow> Continue back (None, fst (snd vars), Some lastErr)))
               else Return (None, None,
                      Some (Wrap lastErr ErrorTypeNetwork ''request failed after retries'')))
      | Inr resp \<Rightarrow>
          (case readBody io of
             (body, Some lastErr) \<Rightarrow>
               if attempt < attempts then
                 (case jitteredBackoff floatConv (randDraw io) (RetryBaseDelay cfg)
                         (RetryMaxDelay cfg) attempt of
                    None \<Rightarrow> Panic
                  | Some back \<Rightarrow>
                      (case ctxDoneInWait io of
                         Some ctxErr \<Rightarrow>
                           Return (None, None,
                             Some (Wrap ctxErr ErrorTypeTimeout ''context cancelled during retry''))
                       | None \<Rightarrow> Continue back (Some resp, Some body, Some lastErr)))
               else Return (Some resp, None,
                      Some (Wrap lastErr ErrorTypeNetwork ''failed to read response body''))
           | (body, None) \<Rightarrow>
               (let status = StatusCode resp
                in if status \<ge> 200 \<and> status < 300 then Return (Some resp, Some body, None)
                   else
                     (let retryable = IsRetryableStatus status;
                          back = (if status = 429
                                  then (case retryAfterDelay (untilDate io) (Some resp) of
                                          (ra, ok) \<Rightarrow> if ok then ra else 0)
                                  else 0)
                      in case (if back = 0
                               then jitteredBackoff floatConv (randDraw io) (RetryBaseDelay cfg)
                                      (RetryMaxDelay cfg) attempt
                               else Some back) of
                           None \<Rightarrow> Panic
                         | Some back \<Rightarrow>
                             if retryable \<and> attempt < attempts then
                               (case ctxDoneInWait io of
                                  Some ctxErr \<Rightarrow>
                                    Return (Some resp, Some body,
                                      Some (Wrap ctxErr ErrorTypeTimeout
                                        ''context cancelled during retry''))
                                | None \<Rightarrow> Continue back (Some resp, Some body, None))
                             else Return (Some resp, Some body,
                                    Some (NewHTTPError status url
                                      (op @ '' HTTP '' @ fmt_d status)))))))"

text \<open>
  The loop \<open>for attempt := 1; attempt <= attempts; attempt++\<close> and the statements after it.
  The counter is an unbounded integer: it cannot wrap before \<open>2^63\<close> attempts are made.
\<close>

function retryLoop ::
  "(int \<Rightarrow> int \<Rightarrow> int) \<Rightarrow> (int \<Rightarrow> AttemptIO) \<Rightarrow> Config \<Rightarrow> string \<Rightarrow> string \<Rightarrow> string option
    \<Rightarrow> int \<Rightarrow> int \<Rightarrow> result \<Rightarrow> event list \<Rightarrow> outcome \<times> event list" where
  "retryLoop floatConv world cfg url op origBody attempts attempt vars trace =
     (if attempt \<le> attempts then
        (case attemptStep floatConv cfg url op attempts attempt (world attempt) vars of
           Return r \<Rightarrow> (Returned r, trace @ [Attempt attempt origBody])
         | Panic \<Rightarrow> (Panicked, trace @ [Attempt attempt origBody])
         | Continue back vars' \<Rightarrow>
             retryLoop floatConv world cfg url op origBody attempts (attempt + 1) vars'
               (trace @ [Attempt attempt origBody, Wait attempt back]))
      else
        (case vars of
           (resp, body, Some lastErr) \<Rightarrow>
             (Returned (None, None, Some (Wrap lastErr ErrorTypeNetwork ''request failed'')), trace)
         | (resp, body, None) \<Rightarrow>
             (Returned (resp, body, Some (New ErrorTypeNetwork (op @ '' exhausted retries''))), trace)))"
  by pat_completeness auto
termination
  by (relation "measure (\<lambda>(floatConv, world, cfg, url, op, origBody, attempts, attempt, vars, trace).
        nat (attempts + 1 - attempt))") auto

declare retryLoop.simps [simp del]

definition DoWithRetry ::
  "(int \<Rightarrow> int \<Rightarrow> int) \<Rightarrow> (int \<Rightarrow> AttemptIO) \<Rightarrow> Request \<Rightarrow> Config \<Rightarrow> string
    \<Rightarrow> outcome \<times> event list" where
  "DoWithRetry floatConv world req cfg op =
     (let attempts = (if RetryMaxAttempts cfg < 1 then 1 else RetryMaxAttempts cfg)
      in case Body req of
           Some (Inl err) \<Rightarrow>
             (Returned (None, None,
                Some (Wrap err ErrorTypeNetwork ''failed to read request body'')), [])
         | Some (Inr b) \<Rightarrow>
             retryLoop floatConv world cfg (URL req) op (Some b) attempts 1 (None, None, None) []
         | None \<Rightarrow>
             retryLoop floatConv world cfg (URL req) op None attempts 1 (None, None, None) [])"

text \<open>\<open>DefaultConfig\<close>, and an attempt that gets a response and reads its body.\<close>

definition DefaultConfig :: Config where
  "DefaultConfig = \<lparr>RetryMaxAttempts = 6, RetryBaseDelay = 400000000,
     RetryMaxDelay = 8000000000, PollInterval = 15000000000, PollJitter = 2000000000,
     OutputDirLogs = ''nccfiles'', OutputDirFiltered = ''outputfiles'',
     OutputFormats = [''html'']\<rparr>"

definition respond :: "int \<Rightarrow> string \<Rightarrow> string \<Rightarrow> AttemptIO" where
  "respond status ra body =
     \<lparr>doResult = Inr \<lparr>StatusCode = status, RetryAfter = ra\<rparr>, ctxErrAfterDo = None,
      readBody = (body, None), randDraw = 12345678901, ctxDoneInWait = None,
      untilDate = (\<lambda>s. None)\<rparr>"

subsection \<open>Reading a trace\<close>


definition backoffWithin :: "int \<Rightarrow> int option \<Rightarrow> bool" where
  "backoffWithin maxDelay r = (case r of None \<Rightarrow> False | Some d \<Rightarrow> 0 \<le> d \<and> d \<le> maxDelay)"



section \<open>The endpoint state machine (pkg/cmd/root.go)\<close>

subsection \<open>Data and collaborators\<close>

record TaskStatus =
  PercentageComplete :: int
  ProgressStatus :: string

text \<open>
  A Go slice may be \<open>nil\<close>: the findings of a result are an optional list, \<open>None\<close> for the
  \<open>nil\<close> slice, and likewise the error.
\<close>

record ClusterResult =
  Cluster :: string
  Blocks :: "ParsedBlock list option"
  Err :: "error option"

text \<open>
  Functions of the Go library that the modelled code calls and that are not modelled
  here are parameters: path handling, Unicode-aware trimming and lower-casing, and
  \<open>regexp.Compile\<close>, which gives the \<open>MatchString\<close> predicate of a pattern or \<open>None\<close> for an
  invalid one. The filter strings are the three values read from the configuration
  store.
\<close>

record Lib =
  filepath_Join :: "string \<Rightarrow> string \<Rightarrow> string"
  filepath_Dir :: "string \<Rightarrow> string"
  strings_TrimSpace :: "string \<Rightarrow> string"
  strings_ToLower :: "string \<Rightarrow> string"
  regexp_Compile :: "string \<Rightarrow> (string \<Rightarrow> bool) option"

record Filters =
  severityFilter :: string
  checkFilter :: string
  clusterFilter :: string

subsection \<open>applyFilters\<close>

text \<open>\<open>append\<close> on a slice that may be \<open>nil\<close>: the result never is.\<close>

definition appendBlock :: "ParsedBlock list option \<Rightarrow> ParsedBlock \<Rightarrow> ParsedBlock list option" where
  "appendBlock s b = (case s of None \<Rightarrow> Some [b] | Some xs \<Rightarrow> Some (xs @ [b]))"

definition compileFilter :: "Lib \<Rightarrow> string \<Rightarrow> (string \<Rightarrow> bool) option" where
  "compileFilter lib pattern = (if pattern \<noteq> [] then regexp_Compile lib pattern else None)"

definition severityFound :: "Lib \<Rightarrow> string \<Rightarrow> ParsedBlock \<Rightarrow> bool" where
  "severityFound lib sevFilter block =
     list_ex (\<lambda>s. strings_TrimSpace lib s = Severity block) (strings_SplitByte (CHR '','') sevFilter)"

fun filterLoop ::
  "Lib \<Rightarrow> string \<Rightarrow> (string \<Rightarrow> bool) option \<Rightarrow> ParsedBlock list option \<Rightarrow> ParsedBlock list
    \<Rightarrow> ParsedBlock list option" where
  "filterLoop lib sevFilter checkRegex filtered [] = filtered"
| "filterLoop lib sevFilter checkRegex filtered (block # blocks) =
     (if sevFilter \<noteq> [] \<and> \<not> severityFound lib sevFilter block
      then filterLoop lib sevFilter checkRegex filtered blocks
      else if (case checkRegex of None \<Rightarrow> False | Some re \<Rightarrow> \<not> re (CheckName block))
      then filterLoop lib sevFilter checkRegex filtered blocks
      else filterLoop lib sevFilter checkRegex (appendBlock filtered block) blocks)"

definition applyFilters :: "Lib \<Rightarrow> Filters \<Rightarrow> ParsedBlock list \<Rightarrow> string \<Rightarrow> ParsedBlock list option" where
  "applyFilters lib flt blocks cluster =
     (let checkRegex = compileFilter lib (checkFilter flt);
          clusterRegex = compileFilter lib (clusterFilter flt)
      in if (case clusterRegex of None \<Rightarrow> False | Some re \<Rightarrow> \<not> re cluster) then None
         else filterLoop lib (severityFilter flt) checkRegex None blocks)"

subsection \<open>runClusterWithBars\<close>

text \<open>
  The remote API client and the renderers are taken through their results. A run is
  given the result of \<open>StartChecks\<close>, the script of what each turn of the polling loop meets
  (the context is done, or \<open>GetTask\<close> returns), the result of \<open>GetRunSummary\<close>, and the
  renderers' results; the files the renderers write are not tracked. The state of a
  run is the file system, the values passed to the progress bar (\<open>onPct\<close> is
  \<open>b.SetCurrent\<close>) and the phases set, in order.
\<close>

datatype pollEvent = CtxDone error | Polled "error + TaskStatus"

record Renderer =
  GenerateHTML :: "ParsedBlock list \<Rightarrow> string \<Rightarrow> error option"
  GenerateCSV :: "ParsedBlock list \<Rightarrow> string \<Rightarrow> error option"
  GenerateJSON :: "ParsedBlock list \<Rightarrow> string \<Rightarrow> error option"

record RunIO =
  startChecks :: "error + string"
  polls :: "pollEvent list"
  getRunSummary :: "error + string"
  renderer :: Renderer

record RunState =
  fsys :: FS
  pcts :: "int list"
  phases :: "string list"

definition onPct :: "RunState \<Rightarrow> int \<Rightarrow> RunState" where
  "onPct st pct = st\<lparr>pcts := pcts st @ [pct]\<rparr>"

definition setPhase :: "RunState \<Rightarrow> string \<Rightarrow> RunState" where
  "setPhase st text = st\<lparr>phases := phases st @ [text]\<rparr>"

definition clampPct :: "int \<Rightarrow> int \<Rightarrow> int" where
  "clampPct lastPct p =
     (let pct = p;
          pct = (if pct < lastPct then lastPct else pct);
          pct = (if pct > 100 then 100 else pct)
      in pct)"

text \<open>
  The polling loop. Each turn first evaluates \<open>rand.Int63n(int64(cfg.PollJitter))\<close>, which
  panics when the jitter is not positive. The loop consumes one event of the script per
  turn; a script that ends before the loop does leaves the run pending.
\<close>

datatype pollExit = ToSummary | PollFailed error | PollPanic string | PollPending

fun pollLoop :: "Config \<Rightarrow> pollEvent list \<Rightarrow> int \<Rightarrow> RunState \<Rightarrow> pollExit \<times> RunState" where
  "pollLoop cfg [] lastPct st =
     (if PollJitter cfg \<le> 0 then (PollPanic ''invalid argument to Int63n'', st)
      else (PollPending, st))"
| "pollLoop cfg (ev # evs) lastPct st =
     (if PollJitter cfg \<le> 0 then (PollPanic ''invalid argument to Int63n'', st)
      else (case ev of
              CtxDone ctxErr \<Rightarrow>
                (PollFailed (Wrap ctxErr ErrorTypeTimeout ''context cancelled during polling''), st)
            | Polled (Inl err) \<Rightarrow>
                (PollFailed (Wrap err ErrorTypeNetwork ''poll failed''), st)
            | Polled (Inr status) \<Rightarrow>
                (let pct = clampPct lastPct (PercentageComplete status);
                     st' = onPct st pct
                 in if ProgressStatus status = ''Failed''
                    then (PollFailed (New ErrorTypeNetwork ''ncc task failed''), st')
                    else if pct \<ge> 100 then (ToSummary, st')
                    else pollLoop cfg evs pct st')))"

definition writeSummary :: "Lib \<Rightarrow> FS \<Rightarrow> string \<Rightarrow> string \<Rightarrow> string \<Rightarrow> error + (string \<times> FS)" where
  "writeSummary lib fs folder cluster summary =
     (case MkdirAll fs folder of
        Some err \<Rightarrow> Inl (Wrap err ErrorTypeFile ''failed to create directory'')
      | None \<Rightarrow>
          (let outPath = filepath_Join lib folder (cluster @ ''.log'')
           in case WriteFile fs outPath (SanitizeSummary summary) of
                Inl err \<Rightarrow> Inl (Wrap err ErrorTypeFile ''failed to write summary'')
              | Inr fs' \<Rightarrow> Inr (outPath, fs')))"

fun renderOutputs :: "Lib \<Rightarrow> Renderer \<Rightarrow> ParsedBlock list \<Rightarrow> string \<Rightarrow> string list \<Rightarrow> error option" where
  "renderOutputs lib r blocks base [] = None"
| "renderOutputs lib r blocks base (f # fs) =
     (let fmt = strings_ToLower lib (strings_TrimSpace lib f)
      in case (if fmt = ''html'' then GenerateHTML r blocks (base @ ''.html'')
               else if fmt = ''csv'' then GenerateCSV r blocks (base @ ''.csv'')
               else if fmt = ''json'' then GenerateJSON r blocks (base @ ''.json'')
               else None) of
           Some err \<Rightarrow> Some err
         | None \<Rightarrow> renderOutputs lib r blocks base fs)"

datatype runResult = Done "ParsedBlock list option" "error option" | RunPanic string | Pending

definition summaryPhase ::
  "Lib \<Rightarrow> Filters \<Rightarrow> RunIO \<Rightarrow> Config \<Rightarrow> string \<Rightarrow> RunState \<Rightarrow> runResult \<times> RunState" where
  "summaryPhase lib flt io cfg cluster st0 =
     (let st = setPhase st0 ''summary''
      in case getRunSummary io of
           Inl err \<Rightarrow> (Done None (Some (Wrap err ErrorTypeNetwork ''get summary failed'')), st)
         | Inr summary \<Rightarrow>
             (let st = setPhase st ''writing''
              in case writeSummary lib (fsys st) (OutputDirLogs cfg) cluster summary of
                   Inl err \<Rightarrow> (Done None (Some err), st)
                 | Inr (logPath, fs1) \<Rightarrow>
                     (let st = st\<lparr>fsys := fs1\<rparr>;
                          filteredPath = filepath_Join lib (OutputDirFiltered cfg) (cluster @ ''.log'')
                      in case filterBlocksToFile (filepath_Dir lib) (fsys st) logPath filteredPath of
                           Inl err \<Rightarrow> (Done None (Some err), st)
                         | Inr fs2 \<Rightarrow>
                             (let st = st\<lparr>fsys := fs2\<rparr>
                              in case ReadFile (fsys st) filteredPath of
                                   Inl err \<Rightarrow> (Done None (Some err), st)
                                 | Inr data \<Rightarrow>
                                     (case ParseSummary data of
                                        Inl err \<Rightarrow> (Done None (Some err), st)
                                      | Inr parsed \<Rightarrow>
                                          (let blocks = applyFilters lib flt parsed cluster
                                           in case renderOutputs lib (renderer io)
                                                     (case blocks of None \<Rightarrow> [] | Some bs \<Rightarrow> bs)
                                                     filteredPath (OutputFormats cfg) of
                                                Some err \<Rightarrow> (Done None (Some err), st)
                                              | None \<Rightarrow> (Done blocks None, setPhase st ''done'')))))))"

definition runClusterWithBars ::
  "Lib \<Rightarrow> Filters \<Rightarrow> RunIO \<Rightarrow> Config \<Rightarrow> string \<Rightarrow> RunState \<Rightarrow> runResult \<times> RunState" where
  "runClusterWithBars lib flt io cfg cluster st0 =
     (let st = setPhase st0 ''starting''
      in case startChecks io of
           Inl err \<Rightarrow> (Done None (Some (Wrap err ErrorTypeNetwork ''start checks failed'')), st)
         | Inr taskID \<Rightarrow>
             (let st = onPct st 1;
                  lastPct = 1;
                  st = setPhase st ''polling''
              in case pollLoop cfg (polls io) lastPct st of
                   (PollPanic msg, st) \<Rightarrow> (RunPanic msg, st)
                 | (PollPending, st) \<Rightarrow> (Pending, st)
                 | (PollFailed err, st) \<Rightarrow> (Done None (Some err), st)
                 | (ToSummary, st) \<Rightarrow> summaryPhase lib flt io cfg cluster st))"

text \<open>
  The worker of \<open>runNCCChecks\<close>: what it publishes on the results channel (nothing while
  the run is pending), with the panic handler as the first case.
\<close>

definition worker ::
  "Lib \<Rightarrow> Filters \<Rightarrow> RunIO \<Rightarrow> Config \<Rightarrow> string \<Rightarrow> RunState \<Rightarrow> ClusterResult option \<times> RunState" where
  "worker lib flt io cfg cl st0 =
     (case runClusterWithBars lib flt io cfg cl st0 of
        (RunPanic msg, st) \<Rightarrow>
          (Some \<lparr>Cluster = cl, Blocks = None, Err = Some (ForeignError (''panic: '' @ msg))\<rparr>, st)
      | (Pending, st) \<Rightarrow> (None, st)
      | (Done blocks (Some err), st) \<Rightarrow>
          (Some \<lparr>Cluster = cl, Blocks = None, Err = Some err\<rparr>, setPhase st ''failed'')
      | (Done blocks None, st) \<Rightarrow>
          (Some \<lparr>Cluster = cl, Blocks = blocks, Err = None\<rparr>, setPhase (onPct st 100) ''done''))"


subsection \<open>The specification's view of progress and filtering\<close>

text \<open>
  The clamp in the words of the specification, \<open>max(previous, min(100, p'))\<close>, and the
  sequence of values it prescribes for the polls the loop processes.
\<close>

definition specClamp :: "int \<Rightarrow> int \<Rightarrow> int" where
  "specClamp previous p = max previous (min 100 p)"

fun specProgress :: "int \<Rightarrow> pollEvent list \<Rightarrow> int list" where
  "specProgress previous [] = []"
| "specProgress previous (CtxDone ctxErr # evs) = []"
| "specProgress previous (Polled (Inl err) # evs) = []"
| "specProgress previous (Polled (Inr status) # evs) =
     specClamp previous (PercentageComplete status)
       # (if ProgressStatus status = ''Failed''
             \<or> specClamp previous (PercentageComplete status) \<ge> 100 then []
          else specProgress (specClamp previous (PercentageComplete status)) evs)"




subsection \<open>A sample run\<close>

definition sampleLib :: Lib where
  "sampleLib = \<lparr>filepath_Join = (\<lambda>dir file. dir @ ''/'' @ file),
     filepath_Dir = (\<lambda>path. ''outputfiles''), strings_TrimSpace = (\<lambda>s. s),
     strings_ToLower = (\<lambda>s. s), regexp_Compile = (\<lambda>pattern. None)\<rparr>"

definition sampleRun :: RunIO where
  "sampleRun = \<lparr>startChecks = Inr ''T1'',
     polls = [Polled (Inr \<lparr>PercentageComplete = 50, ProgressStatus = ''Running''\<rparr>),
              Polled (Inr \<lparr>PercentageComplete = 30, ProgressStatus = ''Running''\<rparr>),
              Polled (Inr \<lparr>PercentageComplete = 100, ProgressStatus = ''Succeeded''\<rparr>)],
     getRunSummary = Inr (''Detailed information for check_X'' @ [NL] @ ''WARN: slow disk'' @ [NL]
        @ ''Refer to KB-1''),
     renderer = \<lparr>GenerateHTML = (\<lambda>blocks file. None), GenerateCSV = (\<lambda>blocks file. None),
        GenerateJSON = (\<lambda>blocks file. None)\<rparr>\<rparr>"

definition freshState :: RunState where
  "freshState = \<lparr>fsys = \<lparr>files = Map.empty, mkdirFails = (\<lambda>path. False),
     writeFails = (\<lambda>path. False)\<rparr>, pcts = [], phases = []\<rparr>"

section \<open>Properties of the parser\<close>

lemma parseLines_empty_iff: "parseLines ls = [] \<longleftrightarrow> (\<forall>l\<in>set ls. \<not> reBlockStart l)"
proof (induction ls rule: parseLines.induct)
  case 1
  show ?case by simp
next
  case (2 l ls)
  then show ?case by (cases "reBlockStart l") auto
qed

lemma SplitNL_noNL: "NL \<notin> set l \<Longrightarrow> strings_SplitNL l = [l]"
  by (induction l) auto

lemma SplitNL_append: "NL \<notin> set l \<Longrightarrow> strings_SplitNL (l @ NL # r) = l # strings_SplitNL r"
  by (induction l) auto

lemma SplitNL_Join:
  "buf \<noteq> [] \<Longrightarrow> \<forall>l\<in>set buf. NL \<notin> set l \<Longrightarrow> strings_SplitNL (strings_Join buf [NL]) = buf"
proof (induction buf "[NL]" rule: strings_Join.induct)
  case 1
  then show ?case by simp
next
  case (2 x)
  then show ?case by (simp add: SplitNL_noNL)
next
  case (3 x y ys)
  then show ?case by (simp add: SplitNL_append)
qed

lemma dropCR_subset: "set (dropCR t) \<subseteq> set t"
  by (auto simp: dropCR_def dest: in_set_butlastD)

lemma dropCR_length: "length (dropCR t) \<le> length t"
  by (simp add: dropCR_def)

lemma scanLines_Nil: "scanLines [] = []"
  by (subst scanLines.simps) simp

lemma scanLines_long:
  "s \<noteq> [] \<Longrightarrow> maxTokenSize \<le> length (takeWhile (\<lambda>c. c \<noteq> NL) s) \<Longrightarrow> scanLines s = []"
  by (subst scanLines.simps) simp

lemma scanLines_step:
  "s \<noteq> [] \<Longrightarrow> length (takeWhile (\<lambda>c. c \<noteq> NL) s) < maxTokenSize \<Longrightarrow>
   scanLines s = dropCR (takeWhile (\<lambda>c. c \<noteq> NL) s) # scanLines (drop 1 (dropWhile (\<lambda>c. c \<noteq> NL) s))"
  by (subst scanLines.simps) simp

lemma scanLines_lines:
  "l \<in> set (scanLines s) \<Longrightarrow> NL \<notin> set l \<and> length l < maxTokenSize"
proof (induction s rule: scanLines.induct)
  case (1 s)
  consider "s = []" | "s \<noteq> []" "maxTokenSize \<le> length (takeWhile (\<lambda>c. c \<noteq> NL) s)"
    | "s \<noteq> []" "length (takeWhile (\<lambda>c. c \<noteq> NL) s) < maxTokenSize"
    by fastforce
  then show ?case
  proof cases
    case 1
    with "1.prems" show ?thesis by (simp add: scanLines_Nil)
  next
    case 2
    with "1.prems" show ?thesis by (simp add: scanLines_long)
  next
    case 3
    from "1.prems" 3
    consider "l = dropCR (takeWhile (\<lambda>c. c \<noteq> NL) s)"
      | "l \<in> set (scanLines (drop 1 (dropWhile (\<lambda>c. c \<noteq> NL) s)))"
      using scanLines_step [of s] by auto
    then show ?thesis
    proof cases
      case 1
      have "NL \<notin> set (takeWhile (\<lambda>c. c \<noteq> NL) s)"
        by (auto dest: set_takeWhileD)
      with dropCR_subset [of "takeWhile (\<lambda>c. c \<noteq> NL) s"] 1 3
        dropCR_length [of "takeWhile (\<lambda>c. c \<noteq> NL) s"]
      show ?thesis by auto
    next
      case 2
      with "1.IH" 3 show ?thesis by simp
    qed
  qed
qed


lemma splitLines_lines:
  "l \<in> set (splitLines s) \<Longrightarrow> NL \<notin> set l \<and> length l < maxTokenSize"
  using scanLines_lines [of l s] by (auto simp: splitLines_def maxTokenSize_def split: if_splits)

lemma collectDetail_buf_subset: "set (fst (collectDetail ls)) \<subseteq> set ls"
  by (induction ls) (auto split: prod.splits)

lemma collectDetail_rest_subset: "set (snd (collectDetail ls)) \<subseteq> set ls"
  by (induction ls) (auto split: prod.splits)

lemma collectDetail_butlast: "x \<in> set (butlast (fst (collectDetail ls))) \<Longrightarrow> \<not> reBlockEnd x"
  by (induction ls) (auto split: prod.splits if_splits)

lemma collectDetail_terminated:
  "snd (collectDetail ls) \<noteq> [] \<Longrightarrow>
   fst (collectDetail ls) \<noteq> [] \<and> reBlockEnd (last (fst (collectDetail ls)))"
  by (induction ls) (auto split: prod.splits if_splits)

lemma parseLines_blocks:
  "b \<in> set (parseLines ls) \<Longrightarrow>
   \<exists>l buf. b = mkBlock l buf \<and> reBlockStart l \<and> l \<in> set ls \<and> set buf \<subseteq> set ls
     \<and> (\<forall>x\<in>set (butlast buf). \<not> reBlockEnd x)"
proof (induction ls rule: parseLines.induct)
  case 1
  then show ?case by simp
next
  case (2 l ls)
  show ?case
  proof (cases "reBlockStart l")
    case False
    with 2 show ?thesis by auto
  next
    case True
    with "2.prems" consider "b = mkBlock l (fst (collectDetail ls))"
      | "b \<in> set (parseLines (snd (collectDetail ls)))" by auto
    then show ?thesis
    proof cases
      case 1
      with True collectDetail_buf_subset [of ls] collectDetail_butlast [of _ ls]
      show ?thesis by (intro exI [of _ l] exI [of _ "fst (collectDetail ls)"]) auto
    next
      case 2
      with "2.IH"(1) True obtain l' buf where
        "b = mkBlock l' buf" "reBlockStart l'" "l' \<in> set (snd (collectDetail ls))"
        "set buf \<subseteq> set (snd (collectDetail ls))" "\<forall>x\<in>set (butlast buf). \<not> reBlockEnd x"
        by blast
      with collectDetail_rest_subset [of ls] show ?thesis
        by (intro exI [of _ l'] exI [of _ buf]) auto
    qed
  qed
qed

lemma parseLines_butlast_terminated:
  "b \<in> set (butlast (parseLines ls)) \<Longrightarrow>
   \<exists>l buf. b = mkBlock l buf \<and> buf \<noteq> [] \<and> reBlockEnd (last buf) \<and> set buf \<subseteq> set ls
     \<and> (\<forall>x\<in>set (butlast buf). \<not> reBlockEnd x)"
proof (induction ls rule: parseLines.induct)
  case 1
  then show ?case by simp
next
  case (2 l ls)
  show ?case
  proof (cases "reBlockStart l")
    case False
    with 2 show ?thesis by auto
  next
    case True
    show ?thesis
    proof (cases "parseLines (snd (collectDetail ls)) = []")
      case True
      with \<open>reBlockStart l\<close> "2.prems" show ?thesis by simp
    next
      case False
      then have "snd (collectDetail ls) \<noteq> []" by auto
      then have tm: "fst (collectDetail ls) \<noteq> [] \<and> reBlockEnd (last (fst (collectDetail ls)))"
        by (rule collectDetail_terminated)
      from False \<open>reBlockStart l\<close> "2.prems"
      consider "b = mkBlock l (fst (collectDetail ls))"
        | "b \<in> set (butlast (parseLines (snd (collectDetail ls))))" by auto
      then show ?thesis
      proof cases
        case 1
        with tm collectDetail_buf_subset [of ls] collectDetail_butlast [of _ ls]
        show ?thesis by (intro exI [of _ l] exI [of _ "fst (collectDetail ls)"]) auto
      next
        case 2
        with "2.IH"(1) \<open>reBlockStart l\<close> obtain l' buf where
          "b = mkBlock l' buf" "buf \<noteq> []" "reBlockEnd (last buf)"
          "set buf \<subseteq> set (snd (collectDetail ls))" "\<forall>x\<in>set (butlast buf). \<not> reBlockEnd x"
          by blast
        with collectDetail_rest_subset [of ls] show ?thesis
          by (intro exI [of _ l'] exI [of _ buf]) auto
      qed
    qed
  qed
qed

lemma mkBlock_sel [simp]:
  "CheckName (mkBlock l buf) = l"
  "DetailRaw (mkBlock l buf) = strings_Join buf [NL]"
  "Severity (mkBlock l buf) = detectSeverity (strings_Join buf [NL])"
  by (simp_all add: mkBlock_def Let_def)

lemma detailLines_mkBlock:
  "buf \<noteq> [] \<Longrightarrow> \<forall>x\<in>set buf. NL \<notin> set x \<Longrightarrow> detailLines (mkBlock l buf) = buf"
  by (simp add: detailLines_def SplitNL_Join)

lemma detailLines_mkBlock_Nil: "detailLines (mkBlock l []) = [[]]"
  by (simp add: detailLines_def)

lemma oneTerminalRefer_iff:
  "oneTerminalRefer ls \<longleftrightarrow> ls \<noteq> [] \<and> reBlockEnd (last ls) \<and> (\<forall>x\<in>set (butlast ls). \<not> reBlockEnd x)"
proof (cases "ls = []")
  case True
  then show ?thesis by (simp add: oneTerminalRefer_def)
next
  case False
  then have "ls = butlast ls @ [last ls]" by simp
  then have "filter reBlockEnd ls = filter reBlockEnd (butlast ls) @ filter reBlockEnd [last ls]"
    by (metis filter_append)
  then show ?thesis using False
    by (auto simp: oneTerminalRefer_def filter_empty_conv)
qed

lemma ParseSummary_Inr:
  "ParseSummary text = Inr F \<longleftrightarrow> text \<noteq> [] \<and> F = parseLines (splitLines text) \<and> F \<noteq> []"
  by (auto simp: ParseSummary_def Let_def)



subsection \<open>When parsing fails\<close>

text \<open>
  C7. \<open>ParseSummary\<close> returns an error exactly when its input is the empty string
  (the empty-input error) or no scanned line of a non-empty input starts a finding (the
  no-findings error); otherwise it returns the findings, a non-empty (hence non-nil)
  sequence. It never returns an empty sequence without an error.
\<close>

theorem ParseSummary_error_iff:
  "(ParseSummary text = Inl e \<longleftrightarrow>
      (text = [] \<and> e = ParseError ''empty summary text'')
      \<or> (text \<noteq> [] \<and> (\<forall>l\<in>set (splitLines text). \<not> reBlockStart l)
          \<and> e = ParseError ''no valid blocks found in summary''))
   \<and> (ParseSummary text = Inr F \<longleftrightarrow>
      text \<noteq> [] \<and> (\<exists>l\<in>set (splitLines text). reBlockStart l)
      \<and> F = parseLines (splitLines text) \<and> F \<noteq> [])
   \<and> ParseSummary text \<noteq> Inr []"
  using parseLines_empty_iff [of "splitLines text"]
  by (auto simp: ParseSummary_def Let_def)

theorem ParseSummary_error_iff_witness:
  "ParseSummary [] = Inl (ParseError ''empty summary text'')
   \<and> ParseSummary ''all checks passed'' = Inl (ParseError ''no valid blocks found in summary'')
   \<and> ParseSummary (''Detailed information for check_X'' @ [NL] @ ''Refer to KB-1'')
       = Inr (parseLines [''Detailed information for check_X'', ''Refer to KB-1''])"
proof -
  have l1: "splitLines ''all checks passed'' = [''all checks passed'']"
    by (simp add: splitLines_def scanLines.simps dropCR_def maxTokenSize_def)
  have "ParseSummary [] = Inl (ParseError ''empty summary text'')"
    using ParseSummary_error_iff [of "[]" "ParseError ''empty summary text''" "[]"] by simp
  moreover have "ParseSummary ''all checks passed''
      = Inl (ParseError ''no valid blocks found in summary'')"
    using ParseSummary_error_iff [of "''all checks passed''"
        "ParseError ''no valid blocks found in summary''" "[]"]
    by (simp add: l1 reBlockStart_def)
  moreover have "ParseSummary (''Detailed information for check_X'' @ [NL] @ ''Refer to KB-1'')
      = Inr (parseLines [''Detailed information for check_X'', ''Refer to KB-1''])"
  proof (rule ParseSummary_error_iff [THEN conjunct2, THEN conjunct1, THEN iffD2])
    show "''Detailed information for check_X'' @ [NL] @ ''Refer to KB-1'' \<noteq> []
      \<and> (\<exists>l\<in>set (splitLines (''Detailed information for check_X'' @ [NL] @ ''Refer to KB-1'')).
            reBlockStart l)
      \<and> parseLines [''Detailed information for check_X'', ''Refer to KB-1'']
          = parseLines (splitLines (''Detailed information for check_X'' @ [NL] @ ''Refer to KB-1''))
      \<and> parseLines [''Detailed information for check_X'', ''Refer to KB-1''] \<noteq> []"
      by (simp add: splitLines_def scanLines.simps dropCR_def maxTokenSize_def reBlockStart_def)
  qed
  ultimately show ?thesis by blast
qed

subsection \<open>The shape of a finding\<close>

text \<open>
  C2 as stated fails: a finding whose block runs to the end of the input without a
  \<open>Refer to\<close> line is still returned, and its detail has no such line.
\<close>

theorem ParseSummary_unterminated_counterexample:
  "ParseSummary (''Detailed information for check_X'' @ [NL] @ ''FAIL: disk full'')
     = Inr [\<lparr>Severity = ''FAIL'', CheckName = ''Detailed information for check_X'',
             DetailRaw = ''FAIL: disk full''\<rparr>]
   \<and> \<not> oneTerminalRefer (detailLines \<lparr>Severity = ''FAIL'',
         CheckName = ''Detailed information for check_X'', DetailRaw = ''FAIL: disk full''\<rparr>)"
  by (simp add: ParseSummary_def splitLines_def scanLines.simps dropCR_def maxTokenSize_def
      reBlockStart_def reBlockEnd_def mkBlock_def detectSeverity_def detailLines_def
      oneTerminalRefer_def)

text \<open>
  C2, amended. For every input on which \<open>ParseSummary\<close> succeeds with findings \<open>F\<close>:
  the check-name of each finding matches \<open>^Detailed information for .*\<close>; no line of its
  detail other than the last matches \<open>^Refer to.*\<close>; and every finding but the last of
  \<open>F\<close> has exactly one such line, the last line of its detail. (The last finding has
  one exactly when its block is closed in the input.)
\<close>

theorem ParseSummary_blocks_delimited:
  assumes "ParseSummary text = Inr F"
  shows "(\<forall>f\<in>set F. reBlockStart (CheckName f)
            \<and> (\<forall>x\<in>set (butlast (detailLines f)). \<not> reBlockEnd x))
         \<and> (\<forall>f\<in>set (butlast F). oneTerminalRefer (detailLines f))"
proof (intro conjI ballI)
  from assms have F: "F = parseLines (splitLines text)" by (simp add: ParseSummary_Inr)
  {
    fix f assume "f \<in> set F"
    with F obtain l buf where b: "f = mkBlock l buf" "reBlockStart l"
      "set buf \<subseteq> set (splitLines text)" "\<forall>x\<in>set (butlast buf). \<not> reBlockEnd x"
      using parseLines_blocks by blast
    then have nl: "\<forall>x\<in>set buf. NL \<notin> set x" using splitLines_lines by blast
    show "reBlockStart (CheckName f)" using b by simp
    fix x assume "x \<in> set (butlast (detailLines f))"
    then show "\<not> reBlockEnd x" using b nl
      by (cases "buf = []") (auto simp: detailLines_mkBlock detailLines_mkBlock_Nil)
  next
    fix f assume "f \<in> set (butlast F)"
    with F obtain l buf where t: "f = mkBlock l buf" "buf \<noteq> []" "reBlockEnd (last buf)"
      "set buf \<subseteq> set (splitLines text)" "\<forall>x\<in>set (butlast buf). \<not> reBlockEnd x"
      using parseLines_butlast_terminated by blast
    then have nl: "\<forall>x\<in>set buf. NL \<notin> set x" using splitLines_lines by blast
    with t have "detailLines f = buf" by (simp add: detailLines_mkBlock)
    with t show "oneTerminalRefer (detailLines f)" by (simp add: oneTerminalRefer_iff)
  }
qed


theorem ParseSummary_blocks_delimited_witness:
  "ParseSummary (''Detailed information for a'' @ [NL] @ ''Refer to KB-1'' @ [NL]
        @ ''Detailed information for b'' @ [NL] @ ''WARN: slow'')
     = Inr [\<lparr>Severity = ''INFO'', CheckName = ''Detailed information for a'',
              DetailRaw = ''Refer to KB-1''\<rparr>,
            \<lparr>Severity = ''WARN'', CheckName = ''Detailed information for b'',
              DetailRaw = ''WARN: slow''\<rparr>]
   \<and> oneTerminalRefer (detailLines \<lparr>Severity = ''INFO'',
         CheckName = ''Detailed information for a'', DetailRaw = ''Refer to KB-1''\<rparr>)
   \<and> reBlockStart ''Detailed information for b''"
proof -
  have p: "ParseSummary (''Detailed information for a'' @ [NL] @ ''Refer to KB-1'' @ [NL]
        @ ''Detailed information for b'' @ [NL] @ ''WARN: slow'')
     = Inr [\<lparr>Severity = ''INFO'', CheckName = ''Detailed information for a'',
              DetailRaw = ''Refer to KB-1''\<rparr>,
            \<lparr>Severity = ''WARN'', CheckName = ''Detailed information for b'',
              DetailRaw = ''WARN: slow''\<rparr>]"
    by (simp add: ParseSummary_def splitLines_def scanLines.simps dropCR_def maxTokenSize_def
        reBlockStart_def reBlockEnd_def mkBlock_def detectSeverity_def)
  from ParseSummary_blocks_delimited [OF p] p show ?thesis by simp
qed


section \<open>Properties of the filtered file\<close>

lemma writeBlocks_acc: "writeBlocks acc F = acc @ concat (map writtenBlock F)"
  by (induction F arbitrary: acc) (simp_all add: writtenBlock_def)

lemma Join_SplitNL: "strings_Join (strings_SplitNL s) [NL] = s"
proof (induction s)
  case Nil
  show ?case by simp
next
  case (Cons c s)
  show ?case
  proof (cases "c = NL")
    case True
    with Cons show ?thesis by (cases "strings_SplitNL s") auto
  next
    case False
    with Cons show ?thesis
      by (cases "strings_SplitNL s" rule: strings_Join.cases [of "(_, [NL])"]) auto
  qed
qed

lemma SplitNL_noNL_lines: "x \<in> set (strings_SplitNL s) \<Longrightarrow> NL \<notin> set x"
  by (induction s arbitrary: x) (auto split: if_splits list.splits)

lemma scanLines_line:
  assumes "NL \<notin> set x" "length x < maxTokenSize"
  shows "scanLines (x @ NL # r) = dropCR x # scanLines r"
proof -
  from assms(1) have tw: "takeWhile (\<lambda>c. c \<noteq> NL) (x @ NL # r) = x"
    by (induction x) auto
  from assms(1) have dw: "dropWhile (\<lambda>c. c \<noteq> NL) (x @ NL # r) = NL # r"
    by (induction x) auto
  show ?thesis using scanLines_step [of "x @ NL # r"] assms(2) by (simp add: tw dw)
qed

lemma scanLines_Join:
  "buf \<noteq> [] \<Longrightarrow> \<forall>x\<in>set buf. NL \<notin> set x \<and> length x < maxTokenSize \<Longrightarrow>
   scanLines (strings_Join buf [NL] @ NL # r) = map dropCR buf @ scanLines r"
proof (induction buf "[NL]" rule: strings_Join.induct)
  case 1
  then show ?case by simp
next
  case (2 x)
  then show ?case by (simp add: scanLines_line)
next
  case (3 x y ys)
  then show ?case by (simp add: scanLines_line)
qed


lemma map_dropCR_id: "\<forall>x\<in>set xs. dropCR x = x \<Longrightarrow> map dropCR xs = xs"
  by (induction xs) auto

lemma reparsable_detail_ne: "oneTerminalRefer ls \<Longrightarrow> ls \<noteq> []"
  by (simp add: oneTerminalRefer_def)

lemma dashes_line:
  "NL \<notin> set dashes"
  "length dashes < maxTokenSize"
  "dropCR dashes = dashes"
  "\<not> reBlockStart dashes"
  "\<not> reBlockStart []"
  "dropCR [] = []"
  by (simp_all add: maxTokenSize_def dropCR_def reBlockStart_def dashes_def)

lemma scanLines_writtenBlock:
  assumes "reparsable b"
  shows "scanLines (writtenBlock b @ r) = blockLines b @ scanLines r"
proof -
  let ?d = "dashes"
  from assms have c: "NL \<notin> set (CheckName b)" "length (CheckName b) < maxTokenSize"
    "dropCR (CheckName b) = CheckName b"
    by (simp_all add: reparsable_def)
  from assms have ne: "detailLines b \<noteq> []"
    by (simp add: reparsable_def reparsable_detail_ne)
  from assms have dl: "\<forall>x\<in>set (detailLines b). NL \<notin> set x \<and> length x < maxTokenSize"
    using SplitNL_noNL_lines by (auto simp: reparsable_def detailLines_def)
  from assms have cr: "\<forall>x\<in>set (detailLines b). dropCR x = x"
    by (simp add: reparsable_def)
  have j: "DetailRaw b = strings_Join (detailLines b) [NL]"
    by (simp add: detailLines_def Join_SplitNL)
  have s4: "scanLines (dashes @ NL # r) = dashes # scanLines r"
    using scanLines_line [of dashes r] by (simp add: dashes_line)
  have s3: "scanLines ([] @ NL # (dashes @ NL # r)) = [] # scanLines (dashes @ NL # r)"
    using scanLines_line [of "[]" "dashes @ NL # r"] by (simp add: maxTokenSize_def dropCR_def)
  have s2: "scanLines (strings_Join (detailLines b) [NL] @ NL # ([] @ NL # (dashes @ NL # r)))
      = detailLines b @ scanLines ([] @ NL # (dashes @ NL # r))"
    using scanLines_Join [OF ne dl] cr by (simp add: map_dropCR_id)
  have s1: "scanLines (CheckName b @ NL # (strings_Join (detailLines b) [NL] @ NL # ([] @ NL # (dashes @ NL # r))))
      = CheckName b # scanLines (strings_Join (detailLines b) [NL] @ NL # ([] @ NL # (dashes @ NL # r)))"
    using scanLines_line [OF c(1,2)] c(3) by simp
  have "writtenBlock b @ r
      = CheckName b @ NL # (strings_Join (detailLines b) [NL] @ NL # ([] @ NL # (dashes @ NL # r)))"
    by (simp add: writtenBlock_def separator_def j [symmetric])
  also have "scanLines \<dots> = CheckName b # detailLines b @ [[], dashes] @ scanLines r"
    by (simp only: s1 s2 s3 s4) simp
  finally show ?thesis by (simp add: blockLines_def)
qed

lemma scanLines_written:
  "\<forall>b\<in>set F. reparsable b \<Longrightarrow>
   scanLines (concat (map writtenBlock F)) = concat (map blockLines F)"
  by (induction F) (simp_all add: scanLines_Nil scanLines_writtenBlock)

lemma written_last:
  "F \<noteq> [] \<Longrightarrow> concat (map writtenBlock F) \<noteq> [] \<and> last (concat (map writtenBlock F)) = NL"
proof (induction F rule: rev_induct)
  case Nil
  then show ?case by simp
next
  case (snoc b F)
  then show ?case by (simp add: writtenBlock_def separator_def)
qed

lemma collectDetail_closed:
  "buf \<noteq> [] \<Longrightarrow> reBlockEnd (last buf) \<Longrightarrow> \<forall>x\<in>set (butlast buf). \<not> reBlockEnd x \<Longrightarrow>
   collectDetail (buf @ r) = (buf, r)"
  by (induction buf) (auto split: if_splits)

lemma mkBlock_detailLines:
  "Severity b = detectSeverity (DetailRaw b) \<Longrightarrow> mkBlock (CheckName b) (detailLines b) = b"
  by (simp add: mkBlock_def Let_def detailLines_def Join_SplitNL)

lemma parseLines_blockLines:
  assumes "reparsable b"
  shows "parseLines (blockLines b @ r) = b # parseLines r"
proof -
  let ?d = "dashes"
  from assms have cd: "collectDetail (detailLines b @ ([] # ?d # r)) = (detailLines b, [] # ?d # r)"
    by (intro collectDetail_closed) (simp_all add: reparsable_def oneTerminalRefer_iff)
  from assms have "mkBlock (CheckName b) (detailLines b) = b"
    by (simp add: reparsable_def mkBlock_detailLines)
  with assms cd show ?thesis
    by (simp add: blockLines_def reparsable_def dashes_line)
qed

lemma parseLines_written:
  "\<forall>b\<in>set F. reparsable b \<Longrightarrow> parseLines (concat (map blockLines F) @ [[]]) = F"
  by (induction F) (simp_all add: parseLines_blockLines dashes_line)

lemma reparse_identity:
  assumes "F \<noteq> []" "\<forall>b\<in>set F. reparsable b"
  shows "ParseSummary (writeBlocks [] F) = Inr F"
proof -
  have w: "writeBlocks [] F = concat (map writtenBlock F)" by (simp add: writeBlocks_acc)
  from assms(1) have "splitLines (writeBlocks [] F) = scanLines (concat (map writtenBlock F)) @ [[]]"
    using written_last [of F] by (simp add: splitLines_def w)
  with assms(2) have "parseLines (splitLines (writeBlocks [] F)) = F"
    by (simp add: scanLines_written parseLines_written)
  with assms(1) written_last [of F] show ?thesis
    by (simp add: ParseSummary_def w)
qed


subsection \<open>The format of the filtered file\<close>

text \<open>
  C5 as stated fails: the code writes one newline between the check-name and the
  detail, not a blank line.
\<close>

theorem filtered_file_blank_line_counterexample:
  "writtenFile
     (filterBlocksToFile (\<lambda>p. p)
        \<lparr>files = [''nccfiles/h1.log'' \<mapsto>
            ''Detailed information for check_X'' @ [NL] @ ''FAIL: disk full'' @ [NL] @ ''Refer to KB-1''],
         mkdirFails = (\<lambda>p. False), writeFails = (\<lambda>p. False)\<rparr>
        ''nccfiles/h1.log'' ''outputfiles/h1.log'')
     ''outputfiles/h1.log''
   = Some (''Detailed information for check_X'' @ [NL] @ ''FAIL: disk full'' @ [NL] @ ''Refer to KB-1''
        @ [NL, NL] @ dashes @ [NL])
   \<and> ''Detailed information for check_X'' @ [NL] @ ''FAIL: disk full'' @ [NL] @ ''Refer to KB-1''
        @ [NL, NL] @ dashes @ [NL]
     \<noteq> concat (map specBlock [\<lparr>Severity = ''FAIL'', CheckName = ''Detailed information for check_X'',
          DetailRaw = ''FAIL: disk full'' @ [NL] @ ''Refer to KB-1''\<rparr>])"
  by (simp add: writtenFile_def filterBlocksToFile_def ReadFile_def MkdirAll_def WriteFile_def
      ParseSummary_def splitLines_def scanLines.simps dropCR_def maxTokenSize_def
      reBlockStart_def reBlockEnd_def mkBlock_def detectSeverity_def separator_def specBlock_def)

text \<open>
  C5, amended. Whenever \<open>filterBlocksToFile\<close> succeeds, the raw file parsed into a
  non-empty sequence of findings, and the filtered file it wrote is exactly the
  concatenation, in finding order, of \<open>check-name\ndetail\n\n---------------------------------------\n\<close>
  for each finding (a single newline between the check-name line and the detail);
  \<open>buildFilteredLog\<close> writes the same file.
\<close>

theorem filterBlocksToFile_content:
  assumes "filterBlocksToFile dir fs inputPath outputPath = Inr fs'"
  shows "\<exists>data F. ReadFile fs inputPath = Inr data \<and> ParseSummary data = Inr F \<and> F \<noteq> []
           \<and> files fs' outputPath = Some (concat (map writtenBlock F))
           \<and> buildFilteredLog dir fs inputPath outputPath = Inr fs'"
proof -
  from assms obtain data where d: "ReadFile fs inputPath = Inr data"
    by (auto simp: filterBlocksToFile_def split: sum.splits)
  with assms obtain F where p: "ParseSummary data = Inr F"
    by (auto simp: filterBlocksToFile_def split: sum.splits)
  then have ne: "F \<noteq> []" by (auto simp: ParseSummary_def Let_def split: if_splits)
  from assms d p have w: "WriteFile fs outputPath (writeBlocks [] F) = Inr fs'"
    and m: "MkdirAll fs (dir outputPath) = None"
    by (auto simp: filterBlocksToFile_def split: option.splits)
  from w have "files fs' outputPath = Some (concat (map writtenBlock F))"
    by (auto simp: WriteFile_def writeBlocks_acc split: if_splits)
  moreover from d p m w have "buildFilteredLog dir fs inputPath outputPath = Inr fs'"
    by (simp add: buildFilteredLog_def)
  ultimately show ?thesis using d p ne by blast
qed

theorem filterBlocksToFile_content_witness:
  "\<exists>data F.
     ReadFile \<lparr>files = [''nccfiles/h1.log'' \<mapsto>
            ''Detailed information for check_X'' @ [NL] @ ''FAIL: disk full'' @ [NL] @ ''Refer to KB-1''],
         mkdirFails = (\<lambda>p. False), writeFails = (\<lambda>p. False)\<rparr> ''nccfiles/h1.log'' = Inr data
     \<and> ParseSummary data = Inr F \<and> F \<noteq> []
     \<and> files \<lparr>files = [''nccfiles/h1.log'' \<mapsto>
            ''Detailed information for check_X'' @ [NL] @ ''FAIL: disk full'' @ [NL] @ ''Refer to KB-1'',
            ''outputfiles/h1.log'' \<mapsto>
            ''Detailed information for check_X'' @ [NL] @ ''FAIL: disk full'' @ [NL] @ ''Refer to KB-1''
              @ [NL, NL] @ dashes @ [NL]],
         mkdirFails = (\<lambda>p. False), writeFails = (\<lambda>p. False)\<rparr> ''outputfiles/h1.log''
       = Some (concat (map writtenBlock F))"
proof -
  have "filterBlocksToFile (\<lambda>p. p)
        \<lparr>files = [''nccfiles/h1.log'' \<mapsto>
            ''Detailed information for check_X'' @ [NL] @ ''FAIL: disk full'' @ [NL] @ ''Refer to KB-1''],
         mkdirFails = (\<lambda>p. False), writeFails = (\<lambda>p. False)\<rparr>
        ''nccfiles/h1.log'' ''outputfiles/h1.log''
      = Inr \<lparr>files = [''nccfiles/h1.log'' \<mapsto>
            ''Detailed information for check_X'' @ [NL] @ ''FAIL: disk full'' @ [NL] @ ''Refer to KB-1'',
            ''outputfiles/h1.log'' \<mapsto>
            ''Detailed information for check_X'' @ [NL] @ ''FAIL: disk full'' @ [NL] @ ''Refer to KB-1''
              @ [NL, NL] @ dashes @ [NL]],
         mkdirFails = (\<lambda>p. False), writeFails = (\<lambda>p. False)\<rparr>"
    by (simp add: filterBlocksToFile_def ReadFile_def MkdirAll_def WriteFile_def
        ParseSummary_def splitLines_def scanLines.simps dropCR_def maxTokenSize_def
        reBlockStart_def reBlockEnd_def mkBlock_def detectSeverity_def separator_def)
  from filterBlocksToFile_content [OF this] show ?thesis by blast
qed

subsection \<open>Parsing the filtered file again\<close>

text \<open>
  C6 as stated fails: the last finding of a summary may lack its \<open>Refer to\<close> line; when
  it is written and parsed again, the separator becomes part of its detail, which is
  more than white space.
\<close>

theorem reparse_unterminated_counterexample:
  "ParseSummary (''Detailed information for check_X'' @ [NL] @ ''FAIL: disk full'')
     = Inr [\<lparr>Severity = ''FAIL'', CheckName = ''Detailed information for check_X'',
             DetailRaw = ''FAIL: disk full''\<rparr>]
   \<and> ParseSummary (writeBlocks [] [\<lparr>Severity = ''FAIL'',
          CheckName = ''Detailed information for check_X'', DetailRaw = ''FAIL: disk full''\<rparr>])
     = Inr [\<lparr>Severity = ''FAIL'', CheckName = ''Detailed information for check_X'',
             DetailRaw = ''FAIL: disk full'' @ [NL, NL] @ dashes @ [NL]\<rparr>]
   \<and> trimSpace (''FAIL: disk full'' @ [NL, NL] @ dashes @ [NL]) \<noteq> trimSpace ''FAIL: disk full''"
  by (simp add: ParseSummary_def splitLines_def scanLines.simps dropCR_def maxTokenSize_def
      reBlockStart_def reBlockEnd_def mkBlock_def detectSeverity_def separator_def dashes_def
      trimSpace_def isSpace_def)

text \<open>
  C6, amended. Let \<open>F\<close> be the findings \<open>ParseSummary\<close> returns for some input, such that
  the detail of every finding ends with a \<open>Refer to\<close> line and no check-name or detail
  line ends in a carriage return. Then \<open>ParseSummary\<close> on the filtered-text serialization
  of \<open>F\<close> returns exactly \<open>F\<close>: the same number of findings, with identical check-name,
  severity and detail.
\<close>

theorem filtered_text_reparse:
  assumes "ParseSummary text = Inr F"
    and "\<forall>f\<in>set F. reBlockEnd (last (detailLines f))
           \<and> (\<forall>x\<in>set (CheckName f # detailLines f). dropCR x = x)"
  shows "ParseSummary (writeBlocks [] F) = Inr F"
proof (rule reparse_identity)
  from assms(1) show "F \<noteq> []" by (auto simp: ParseSummary_Inr)
  from assms(1) have F: "F = parseLines (splitLines text)" by (simp add: ParseSummary_Inr)
  show "\<forall>b\<in>set F. reparsable b"
  proof
    fix f assume f: "f \<in> set F"
    with F obtain l buf where b: "f = mkBlock l buf" "reBlockStart l" "l \<in> set (splitLines text)"
      "set buf \<subseteq> set (splitLines text)" "\<forall>x\<in>set (butlast buf). \<not> reBlockEnd x"
      using parseLines_blocks by blast
    from f assms(2) have t: "reBlockEnd (last (detailLines f))"
      and cr: "\<forall>x\<in>set (CheckName f # detailLines f). dropCR x = x" by auto
    have ne: "buf \<noteq> []"
    proof
      assume "buf = []"
      with b(1) t show False by (simp add: detailLines_mkBlock_Nil reBlockEnd_def)
    qed
    from b(4) have ok: "\<forall>x\<in>set buf. NL \<notin> set x \<and> length x < maxTokenSize"
      using splitLines_lines by blast
    with ne b(1) have dl: "detailLines f = buf" by (simp add: detailLines_mkBlock)
    from b(3) have okl: "NL \<notin> set l \<and> length l < maxTokenSize"
      using splitLines_lines by blast
    from b(1) have sel: "CheckName f = l" "Severity f = detectSeverity (DetailRaw f)" by simp_all
    from t ne b(5) dl have "oneTerminalRefer (detailLines f)" by (simp add: oneTerminalRefer_iff)
    with b(2) ok okl cr dl sel show "reparsable f" by (simp add: reparsable_def)
  qed
qed

theorem filtered_text_reparse_witness:
  "ParseSummary (''Detailed information for check_X'' @ [NL] @ ''FAIL: disk full'' @ [NL] @ ''Refer to KB-1'')
     = Inr [\<lparr>Severity = ''FAIL'', CheckName = ''Detailed information for check_X'',
              DetailRaw = ''FAIL: disk full'' @ [NL] @ ''Refer to KB-1''\<rparr>]
   \<and> ParseSummary (writeBlocks [] [\<lparr>Severity = ''FAIL'',
          CheckName = ''Detailed information for check_X'',
          DetailRaw = ''FAIL: disk full'' @ [NL] @ ''Refer to KB-1''\<rparr>])
     = Inr [\<lparr>Severity = ''FAIL'', CheckName = ''Detailed information for check_X'',
              DetailRaw = ''FAIL: disk full'' @ [NL] @ ''Refer to KB-1''\<rparr>]"
proof -
  have p: "ParseSummary (''Detailed information for check_X'' @ [NL] @ ''FAIL: disk full'' @ [NL] @ ''Refer to KB-1'')
     = Inr [\<lparr>Severity = ''FAIL'', CheckName = ''Detailed information for check_X'',
              DetailRaw = ''FAIL: disk full'' @ [NL] @ ''Refer to KB-1''\<rparr>]"
    by (simp add: ParseSummary_def splitLines_def scanLines.simps dropCR_def maxTokenSize_def
        reBlockStart_def reBlockEnd_def mkBlock_def detectSeverity_def)
  have h: "\<forall>f\<in>set [\<lparr>Severity = ''FAIL'', CheckName = ''Detailed information for check_X'',
              DetailRaw = ''FAIL: disk full'' @ [NL] @ ''Refer to KB-1''\<rparr>].
      reBlockEnd (last (detailLines f)) \<and> (\<forall>x\<in>set (CheckName f # detailLines f). dropCR x = x)"
    by (simp add: detailLines_def reBlockEnd_def dropCR_def)
  from filtered_text_reparse [OF p h] p show ?thesis by simp
qed


section \<open>Properties of the retrying HTTP caller\<close>

subsection \<open>jitteredBackoff\<close>

lemma jitteredBackoff_cases:
  "jitteredBackoff fc draw base maxDelay attempt =
     (if min (expDelay fc base attempt) maxDelay \<le> 0 then Some 0
      else Some (draw mod min (expDelay fc base attempt) maxDelay))"
  by (auto simp: jitteredBackoff_def Let_def rand_Int63n_def min_def)


text \<open>
  C10 as stated fails where the maximum delay is negative: the result is 0, which is
  above the maximum.
\<close>

theorem jitteredBackoff_negative_max_counterexample:
  "jitteredBackoff (\<lambda>base attempt. 0) 12345678901 400000000 (- 1) 1 = Some 0
   \<and> \<not> backoffWithin (- 1) (jitteredBackoff (\<lambda>base attempt. 0) 12345678901 400000000 (- 1) 1)"
  by (simp add: jitteredBackoff_def expDelay_def rand_Int63n_def backoffWithin_def)

text \<open>
  C10, amended. For every base delay, maximum delay, attempt number, random draw and
  outcome of the floating-point conversion, \<open>jitteredBackoff\<close> returns (the random
  generator is never called with a non-positive bound) a duration \<open>d\<close> with
  \<open>0 \<le> d \<le> max 0 maxDelay\<close>, hence \<open>d \<le> maxDelay\<close> whenever \<open>maxDelay\<close> is not
  negative; it is 0 whenever the cap \<open>min (base * 2^(k-1)) maxDelay\<close>, as computed, is
  not positive, and strictly below the cap otherwise.
\<close>

theorem jitteredBackoff_total_bounded:
  "\<exists>d. jitteredBackoff fc draw base maxDelay attempt = Some d \<and> 0 \<le> d \<and> d \<le> max 0 maxDelay
     \<and> (0 \<le> maxDelay \<longrightarrow> d \<le> maxDelay)
     \<and> (min (expDelay fc base attempt) maxDelay \<le> 0 \<longrightarrow> d = 0)
     \<and> (0 < min (expDelay fc base attempt) maxDelay \<longrightarrow> d < min (expDelay fc base attempt) maxDelay)"
proof (cases "min (expDelay fc base attempt) maxDelay \<le> 0")
  case True
  then show ?thesis by (simp add: jitteredBackoff_cases)
next
  case False
  then have pos: "0 < min (expDelay fc base attempt) maxDelay" by linarith
  have "0 \<le> draw mod min (expDelay fc base attempt) maxDelay"
    using pos by (rule pos_mod_sign)
  moreover have "draw mod min (expDelay fc base attempt) maxDelay < min (expDelay fc base attempt) maxDelay"
    using pos by (rule pos_mod_bound)
  ultimately have "0 \<le> draw mod min (expDelay fc base attempt) maxDelay
    \<and> draw mod min (expDelay fc base attempt) maxDelay < min (expDelay fc base attempt) maxDelay
    \<and> draw mod min (expDelay fc base attempt) maxDelay \<le> max 0 maxDelay" by linarith
  with False show ?thesis by (simp add: jitteredBackoff_cases)
qed


theorem jitteredBackoff_total_bounded_witness:
  "jitteredBackoff (\<lambda>base attempt. 0) 12345678901 400000000 8000000000 6 = Some 4345678901
   \<and> min (expDelay (\<lambda>base attempt. 0) 400000000 6) 8000000000 = 8000000000"
proof -
  have c: "min (expDelay (\<lambda>base attempt. 0) 400000000 6) 8000000000 = 8000000000"
    by (simp add: expDelay_def)
  obtain d where d: "jitteredBackoff (\<lambda>base attempt. 0) 12345678901 400000000 8000000000 6 = Some d"
    and "0 \<le> d" and "0 \<le> (8000000000::int) \<longrightarrow> d \<le> 8000000000"
    and "0 < min (expDelay (\<lambda>base attempt. 0) 400000000 6) 8000000000
      \<longrightarrow> d < min (expDelay (\<lambda>base attempt. 0) 400000000 6) 8000000000"
    using jitteredBackoff_total_bounded [of "\<lambda>base attempt. 0" 12345678901 400000000 8000000000 6]
    by blast
  moreover have "jitteredBackoff (\<lambda>base attempt. 0) 12345678901 400000000 8000000000 6
      = Some 4345678901"
    by (simp add: jitteredBackoff_def expDelay_def rand_Int63n_def)
  ultimately show ?thesis using c by simp
qed

subsection \<open>One attempt\<close>





















subsection \<open>Attempts and terminal statuses\<close>




subsection \<open>Delays between attempts\<close>





subsection \<open>Honouring Retry-After\<close>

text \<open>
  Within the range of \<open>time.Duration\<close> the header is honoured exactly: a 429 whose
  \<open>Retry-After\<close> is an integer \<open>s\<close> with \<open>0 < s \<le> 9223372036\<close> is followed, when the
  caller retries, by a wait of \<open>s\<close> seconds.
\<close>

lemma int64_id: "- (2 ^ 63) \<le> x \<Longrightarrow> x < 2 ^ 63 \<Longrightarrow> int64 x = x"
proof -
  assume "- (2 ^ 63) \<le> x" and "x < 2 ^ 63"
  then have "signed_take_bit 63 x = x" by (rule signed_take_bit_int_eq_self)
  moreover have "int64 x = signed_take_bit (LENGTH(64) - 1) x"
    unfolding int64_def by (rule sint_sbintrunc')
  ultimately show ?thesis by simp
qed

lemma attemptStep_retry_after_in_range:
  assumes "attemptStep fc cfg url op n k io vars = Continue d vars'"
    and "doResult io = Inr resp" and "readBody io = (body, None)"
    and "StatusCode resp = 429" and "strconv_Atoi (RetryAfter resp) = Some s"
    and "0 < s" and "s \<le> 9223372036"
  shows "d = s * Second"
proof -
  from assms(5) have ne: "RetryAfter resp \<noteq> []" by (auto simp: strconv_Atoi_def Let_def)
  from assms(6,7) have "- (2 ^ 63) \<le> s * Second" and "s * Second < 2 ^ 63"
    by (simp_all add: Second_def)
  then have "int64 (s * Second) = s * Second" by (rule int64_id)
  moreover from assms(6) have "s * Second \<noteq> 0" by (simp add: Second_def)
  ultimately show ?thesis using assms(1-5) ne
    by (auto simp: attemptStep_def Let_def retryAfterDelay_def split: if_splits option.splits)
qed

text \<open>
  C4 fails on the code for large values: \<open>Retry-After: 9223372037\<close> is parsed by
  \<open>strconv.Atoi\<close>, but the multiplication by \<open>time.Second\<close> wraps around in \<open>int64\<close> to a
  negative duration, so the next attempt is issued without waiting.
\<close>

theorem DoWithRetry_retry_after_overflow:
  "snd (DoWithRetry (\<lambda>base attempt. 0) (\<lambda>k. if k = 1 then respond 429 ''9223372037'' [] else respond 200 [] ''{}'')
        \<lparr>URL = ''https://h1:9440/PrismGateway/services/rest/v2.0/tasks/T1'', Body = None\<rparr> DefaultConfig ''get task'')
     = [Attempt 1 None, Wait 1 (- 9223372036709551616), Attempt 2 None]"
  by (simp add: DoWithRetry_def retryLoop.simps attemptStep_def DefaultConfig_def respond_def
      retryAfterDelay_def strconv_Atoi_def isDigit_def int64_def Second_def IsRetryableStatus_def
      jitteredBackoff_def expDelay_def rand_Int63n_def NewHTTPError_def fmt_d_def fmt_nat.simps)


section \<open>Properties of the endpoint state machine\<close>

subsection \<open>Progress\<close>

text \<open>The definitions unfolded to run the sample.\<close>

lemmas run_eval = worker_def runClusterWithBars_def summaryPhase_def writeSummary_def
  applyFilters_def compileFilter_def severityFound_def appendBlock_def clampPct_def onPct_def
  setPhase_def sampleLib_def sampleRun_def freshState_def DefaultConfig_def
  filterBlocksToFile_def ReadFile_def MkdirAll_def WriteFile_def
  ParseSummary_def splitLines_def scanLines.simps dropCR_def maxTokenSize_def
  reBlockStart_def reBlockEnd_def mkBlock_def detectSeverity_def separator_def dashes_def Let_def


lemma clampPct_spec: "lastPct \<le> 100 \<Longrightarrow> clampPct lastPct p = specClamp lastPct p"
  by (simp add: clampPct_def specClamp_def Let_def)

lemma specClamp_bounds:
  "previous \<le> 100 \<Longrightarrow> previous \<le> specClamp previous p \<and> specClamp previous p \<le> 100"
  by (simp add: specClamp_def)

lemma pollLoop_no_jitter:
  "PollJitter cfg \<le> 0 \<Longrightarrow> pollLoop cfg evs lastPct st = (PollPanic ''invalid argument to Int63n'', st)"
  by (cases evs) simp_all

lemma pollLoop_pcts:
  "0 < PollJitter cfg \<Longrightarrow> lastPct \<le> 100 \<Longrightarrow>
   pcts (snd (pollLoop cfg evs lastPct st)) = pcts st @ specProgress lastPct evs"
proof (induction evs arbitrary: lastPct st)
  case Nil
  then show ?case by simp
next
  case (Cons ev evs)
  show ?case
  proof (cases ev)
    case (CtxDone e)
    with Cons.prems show ?thesis by simp
  next
    case (Polled r)
    show ?thesis
    proof (cases r)
      case (Inl e)
      with Polled Cons.prems show ?thesis by simp
    next
      case (Inr status)
      let ?p = "specClamp lastPct (PercentageComplete status)"
      from Cons.prems(2) have c: "clampPct lastPct (PercentageComplete status) = ?p"
        by (rule clampPct_spec)
      from Cons.prems(2) have b: "?p \<le> 100" using specClamp_bounds by blast
      show ?thesis
      proof (cases "ProgressStatus status = ''Failed'' \<or> 100 \<le> ?p")
        case True
        with Polled Inr Cons.prems c show ?thesis by (auto simp: Let_def onPct_def)
      next
        case False
        with Polled Inr Cons.prems c Cons.IH [OF Cons.prems(1) b, of "onPct st ?p"]
        show ?thesis by (simp add: Let_def onPct_def)
      qed
    qed
  qed
qed

lemma specProgress_sorted:
  "previous \<le> 100 \<Longrightarrow>
   sorted (previous # specProgress previous evs) \<and> (\<forall>p\<in>set (specProgress previous evs). p \<le> 100)"
proof (induction previous evs rule: specProgress.induct)
  case (4 previous status evs)
  let ?p = "specClamp previous (PercentageComplete status)"
  from 4(2) have b: "previous \<le> ?p" "?p \<le> 100" using specClamp_bounds by blast+
  show ?case
  proof (cases "ProgressStatus status = ''Failed'' \<or> 100 \<le> ?p")
    case True
    with b show ?thesis by auto
  next
    case False
    with 4(1) b have "sorted (?p # specProgress ?p evs)"
      and "\<forall>p\<in>set (specProgress ?p evs). p \<le> 100" by auto
    with False b show ?thesis by auto
  qed
qed simp_all

lemma pollLoop_ToSummary:
  "fst (pollLoop cfg evs lastPct st) = ToSummary \<Longrightarrow> lastPct \<le> 100 \<Longrightarrow>
   pcts (snd (pollLoop cfg evs lastPct st)) \<noteq> [] \<and> last (pcts (snd (pollLoop cfg evs lastPct st))) = 100"
proof (induction evs arbitrary: lastPct st)
  case Nil
  then show ?case by (simp split: if_splits)
next
  case (Cons ev evs)
  from Cons.prems(1) have j: "0 < PollJitter cfg" by (auto split: if_splits)
  show ?case
  proof (cases ev)
    case (CtxDone e)
    with Cons.prems j show ?thesis by simp
  next
    case (Polled r)
    show ?thesis
    proof (cases r)
      case (Inl e)
      with Polled Cons.prems j show ?thesis by simp
    next
      case (Inr status)
      let ?p = "specClamp lastPct (PercentageComplete status)"
      from Cons.prems(2) have c: "clampPct lastPct (PercentageComplete status) = ?p"
        by (rule clampPct_spec)
      from Cons.prems(2) have b: "?p \<le> 100" using specClamp_bounds by blast
      show ?thesis
      proof (cases "ProgressStatus status = ''Failed''")
        case True
        with Polled Inr Cons.prems j c show ?thesis by (simp add: Let_def)
      next
        case nf: False
        show ?thesis
        proof (cases "100 \<le> ?p")
          case True
          with b have "?p = 100" by simp
          with Polled Inr j c nf show ?thesis by (simp add: Let_def onPct_def)
        next
          case False
          with Polled Inr j c nf have
            eq: "pollLoop cfg (ev # evs) lastPct st = pollLoop cfg evs ?p (onPct st ?p)"
            by (simp add: Let_def)
          with Cons.prems(1) Cons.IH [OF _ b, of "onPct st ?p"] show ?thesis by simp
        qed
      qed
    qed
  qed
qed

lemma summaryPhase_pcts: "pcts (snd (summaryPhase lib flt io cfg cluster st)) = pcts st"
  by (simp add: summaryPhase_def Let_def setPhase_def split: sum.splits prod.splits option.splits)


lemma runClusterWithBars_start_failed:
  "startChecks io = Inl e \<Longrightarrow>
   runClusterWithBars lib flt io cfg cluster st0
     = (Done None (Some (Wrap e ErrorTypeNetwork ''start checks failed'')), setPhase st0 ''starting'')"
  by (simp add: runClusterWithBars_def Let_def)

lemma runClusterWithBars_started:
  "startChecks io = Inr t \<Longrightarrow>
   pollLoop cfg (polls io) 1 (setPhase (onPct (setPhase st0 ''starting'') 1) ''polling'') = (ex, st2) \<Longrightarrow>
   runClusterWithBars lib flt io cfg cluster st0
     = (case ex of
          PollPanic msg \<Rightarrow> (RunPanic msg, st2)
        | PollPending \<Rightarrow> (Pending, st2)
        | PollFailed err \<Rightarrow> (Done None (Some err), st2)
        | ToSummary \<Rightarrow> summaryPhase lib flt io cfg cluster st2)"
  by (simp add: runClusterWithBars_def Let_def split: pollExit.splits)

text \<open>
  C9. In a run that starts with a fresh progress bar, the values reported to the
  progress callback are 1 followed, for each poll the loop processes, by
  \<open>max(previous, min(100, p'))\<close>, where \<open>p'\<close> is the remote \<open>percentage_complete\<close> (this is
  \<open>specProgress\<close>; it needs a positive poll jitter, without which the loop panics before
  the first poll). The sequence is non-decreasing, never exceeds 100, and its last value
  is 100 when the run succeeds.
\<close>

theorem progress_clamped_monotone:
  assumes "runClusterWithBars lib flt io cfg cluster st0 = (res, st)" and "pcts st0 = []"
  shows "(\<forall>taskID. startChecks io = Inr taskID \<and> 0 < PollJitter cfg \<longrightarrow>
            pcts st = 1 # specProgress 1 (polls io))
         \<and> sorted (pcts st) \<and> (\<forall>p\<in>set (pcts st). p \<le> 100)
         \<and> (\<forall>blocks. res = Done blocks None \<longrightarrow> pcts st \<noteq> [] \<and> last (pcts st) = 100)"
proof (cases "startChecks io")
  case (Inl e)
  with assms(1) have "res = Done None (Some (Wrap e ErrorTypeNetwork ''start checks failed''))"
    and "st = setPhase st0 ''starting''"
    by (simp_all add: runClusterWithBars_start_failed)
  with assms(2) Inl show ?thesis by (simp add: setPhase_def)
next
  case (Inr t)
  let ?st1 = "setPhase (onPct (setPhase st0 ''starting'') 1) ''polling''"
  have p1: "pcts ?st1 = [1]" using assms(2) by (simp add: setPhase_def onPct_def)
  obtain ex st2 where pl: "pollLoop cfg (polls io) 1 ?st1 = (ex, st2)" by fastforce
  note run = runClusterWithBars_started [OF Inr pl, of lib flt cluster]
  show ?thesis
  proof (cases "PollJitter cfg \<le> 0")
    case True
    with pl have "ex = PollPanic ''invalid argument to Int63n''" and "st2 = ?st1"
      by (simp_all add: pollLoop_no_jitter)
    with assms(1) run have "res = RunPanic ''invalid argument to Int63n''" and "st = ?st1"
      by simp_all
    with p1 True show ?thesis by simp
  next
    case False
    then have j: "0 < PollJitter cfg" by simp
    have q: "pcts st2 = 1 # specProgress 1 (polls io)"
      using pollLoop_pcts [OF j, of 1 "polls io" ?st1] pl p1 by simp
    have srt: "sorted (1 # specProgress 1 (polls io))"
      and bnd: "\<forall>p\<in>set (specProgress 1 (polls io)). p \<le> 100"
      using specProgress_sorted [of 1 "polls io"] by simp_all
    have same: "pcts st = pcts st2"
    proof (cases ex)
      case ToSummary
      with assms(1) run have "summaryPhase lib flt io cfg cluster st2 = (res, st)" by simp
      then have "snd (summaryPhase lib flt io cfg cluster st2) = st" by simp
      then show ?thesis using summaryPhase_pcts [of lib flt io cfg cluster st2] by simp
    qed (use assms(1) run in auto)
    have succ: "pcts st \<noteq> [] \<and> last (pcts st) = 100" if "res = Done blocks None" for blocks
    proof -
      from that assms(1) run have "ex = ToSummary" by (cases ex) auto
      with pl have "fst (pollLoop cfg (polls io) 1 ?st1) = ToSummary" by simp
      from pollLoop_ToSummary [OF this] pl same show ?thesis by simp
    qed
    from q srt bnd same succ show ?thesis by auto
  qed
qed


theorem progress_clamped_monotone_witness:
  "pcts (snd (runClusterWithBars sampleLib \<lparr>severityFilter = [], checkFilter = [], clusterFilter = []\<rparr>
       sampleRun DefaultConfig ''h1'' freshState)) = [1, 50, 50, 100]
   \<and> specProgress 1 (polls sampleRun) = [50, 50, 100]
   \<and> fst (runClusterWithBars sampleLib \<lparr>severityFilter = [], checkFilter = [], clusterFilter = []\<rparr>
       sampleRun DefaultConfig ''h1'' freshState)
     = Done (Some [\<lparr>Severity = ''WARN'', CheckName = ''Detailed information for check_X'',
          DetailRaw = ''WARN: slow disk'' @ [NL] @ ''Refer to KB-1''\<rparr>]) None"
proof -
  have h: "pcts freshState = []" by (simp add: freshState_def)
  have r: "fst (runClusterWithBars sampleLib \<lparr>severityFilter = [], checkFilter = [], clusterFilter = []\<rparr>
       sampleRun DefaultConfig ''h1'' freshState)
     = Done (Some [\<lparr>Severity = ''WARN'', CheckName = ''Detailed information for check_X'',
          DetailRaw = ''WARN: slow disk'' @ [NL] @ ''Refer to KB-1''\<rparr>]) None"
    by (simp add: run_eval)
  have sp: "specProgress 1 (polls sampleRun) = [50, 50, 100]"
    by (simp add: sampleRun_def specClamp_def)
  have run: "runClusterWithBars sampleLib \<lparr>severityFilter = [], checkFilter = [], clusterFilter = []\<rparr>
       sampleRun DefaultConfig ''h1'' freshState
     = (fst (runClusterWithBars sampleLib \<lparr>severityFilter = [], checkFilter = [], clusterFilter = []\<rparr>
          sampleRun DefaultConfig ''h1'' freshState),
        snd (runClusterWithBars sampleLib \<lparr>severityFilter = [], checkFilter = [], clusterFilter = []\<rparr>
          sampleRun DefaultConfig ''h1'' freshState))"
    by simp
  from progress_clamped_monotone [OF run h]
  have "pcts (snd (runClusterWithBars sampleLib \<lparr>severityFilter = [], checkFilter = [], clusterFilter = []\<rparr>
       sampleRun DefaultConfig ''h1'' freshState)) = 1 # specProgress 1 (polls sampleRun)"
    by (simp add: sampleRun_def DefaultConfig_def)
  with sp r show ?thesis by simp
qed

subsection \<open>The published result\<close>










end
